theory Spec2Isabelle
  imports Complex_Main "HOL-Library.Word"
begin

section \<open>The notebook \<open>opencv-basics.ipynb\<close>: data\<close>

text \<open>
  The notebook defines three Python functions (\<open>loadImage\<close>, \<open>annotate\<close>, \<open>predict\<close>) and a
  sequence of top-level cells. Everything else is a call into OpenCV (\<open>cv2\<close>), NumPy,
  darkflow (\<open>TFNet\<close>), matplotlib or ipywidgets. The functions of those libraries are not
  part of the repository: they are the fields of the record \<open>extlib\<close> below, and every
  theorem holds for every such record unless it names a property of the library as an
  explicit premise.
\<close>

subsection \<open>Arrays, detections, library constants\<close>

datatype dtype = UInt8 | Int32 | Float32 | Float64

text \<open>
  A NumPy array: its shape, its element type and its buffer. A dimension is a
  non-negative machine integer (\<open>npy_intp\<close>), read with \<open>unat\<close> or \<open>uint\<close>. For the
  \<open>uint8\<close> images of the notebook the buffer holds one entry per channel value, row by
  row.
\<close>

record ndarray =
  shape :: "64 word list"
  dtype :: dtype
  buf :: "8 word list"

datatype coord = Coord (coord_x: int) (coord_y: int)

text \<open>
  A prediction of \<open>return_predict\<close>: the dictionary
  \<open>{"label": .., "confidence": .., "topleft": {"x": .., "y": ..}, "bottomright": {..}}\<close>.
\<close>

record detection =
  label :: string
  confidence :: rat
  topleft :: coord
  bottomright :: coord

datatype imread_flag = IMREAD_UNCHANGED | IMREAD_GRAYSCALE | IMREAD_COLOR

datatype conv_code = COLOR_BGR2RGB | COLOR_RGB2BGR | COLOR_BGR2GRAY

type_synonym addr = nat
type_synonym point = "int \<times> int"
type_synonym color = "int \<times> int \<times> int"
type_synonym bytes = "8 word list"

text \<open>The \<open>options\<close> dictionary handed to \<open>TFNet\<close>.\<close>

record tfnet_options =
  opt_model :: string
  opt_load :: string
  opt_threshold :: rat

text \<open>
  The file system the notebook runs on: the contents of each readable file, and the
  entries of each directory.
\<close>

record filesys =
  files :: "string \<rightharpoonup> bytes"
  dirs :: "string \<rightharpoonup> string list"

subsection \<open>The external libraries\<close>

text \<open>
  What a library raises is a \<open>libexn\<close> (its message). Each field gives the outcome of one
  library call on the values it is handed:
  \<^item> \<open>imread\<close> and \<open>imdecode\<close> return an array or Python's \<open>None\<close>;
  \<^item> \<open>cvtColor\<close> is handed an array or \<open>None\<close> and returns a new array;
  \<^item> \<open>rectangle\<close> draws in place: it yields the entries of the buffer it overwrites, as
    (index, value) pairs; its thickness argument is an integer or \<open>None\<close>;
  \<^item> \<open>tfnet_build\<close> is \<open>TFNet(options)\<close>, \<open>return_predict\<close> the method of the built net.
\<close>

type_synonym libexn = string

record extlib =
  imread :: "filesys \<Rightarrow> string \<Rightarrow> imread_flag \<Rightarrow> libexn + ndarray option"
  imdecode :: "ndarray \<Rightarrow> imread_flag \<Rightarrow> libexn + ndarray option"
  cvtColor :: "ndarray option \<Rightarrow> conv_code \<Rightarrow> libexn + ndarray"
  rectangle :: "ndarray \<Rightarrow> point \<Rightarrow> point \<Rightarrow> color \<Rightarrow> int option \<Rightarrow> libexn + (nat \<times> 8 word) list"
  tfnet_build :: "filesys \<Rightarrow> tfnet_options \<Rightarrow> libexn + unit"
  return_predict :: "ndarray \<Rightarrow> libexn + detection list"

subsection \<open>Errors, events, program state\<close>

text \<open>
  \<open>External\<close> is an exception raised inside a library call; the others are raised by the
  Python of the notebook itself. \<open>DanglingRef\<close> stands for the use of an address that
  holds no array: no Python expression yields one, the case makes the model total.
\<close>

datatype error =
  External libexn
  | IndexError
  | TypeError
  | FileNotFoundError string
  | DanglingRef

text \<open>The calls that leave the notebook, in the order they are made.\<close>

datatype event =
  Imread string imread_flag
  | Imdecode addr imread_flag
  | CvtColor "addr option" conv_code
  | NpCopy addr
  | NpAsarray
  | Rectangle addr point point color "int option"
  | OpenRead string
  | Listdir string
  | TFNetBuild tfnet_options
  | ReturnPredict addr
  | Imshow addr

text \<open>
  Arrays live in a store; a Python variable holds the address of its array. A new array
  takes the next address, so it is distinct from every array that exists.
\<close>

record state =
  heap :: "ndarray list"
  trace :: "event list"

type_synonym 'a prog = "state \<Rightarrow> (error + 'a) \<times> state"

definition ret :: "'a \<Rightarrow> 'a prog" where
  "ret v s = (Inr v, s)"

definition raise :: "error \<Rightarrow> 'a prog" where
  "raise e s = (Inl e, s)"

text \<open>
  Sequencing: an exception ends the computation with the state reached so far (Python
  does not undo the effects that came before the \<open>raise\<close>).
\<close>

definition then_do :: "'a prog \<Rightarrow> ('a \<Rightarrow> 'b prog) \<Rightarrow> 'b prog" where
  "then_do m f s = (case m s of (Inl e, s') \<Rightarrow> (Inl e, s') | (Inr v, s') \<Rightarrow> f v s')"

definition emit :: "event \<Rightarrow> unit prog" where
  "emit ev s = (Inr (), s\<lparr>trace := trace s @ [ev]\<rparr>)"

definition alloc :: "ndarray \<Rightarrow> addr prog" where
  "alloc arr s = (Inr (length (heap s)), s\<lparr>heap := heap s @ [arr]\<rparr>)"

definition deref :: "addr \<Rightarrow> ndarray prog" where
  "deref a s = (if a < length (heap s) then (Inr (heap s ! a), s) else (Inl DanglingRef, s))"

definition store :: "addr \<Rightarrow> ndarray \<Rightarrow> unit prog" where
  "store a arr s = (Inr (), s\<lparr>heap := (heap s)[a := arr]\<rparr>)"

definition lift_lib :: "libexn + 'a \<Rightarrow> 'a prog" where
  "lift_lib r s = (case r of Inl e \<Rightarrow> (Inl (External e), s) | Inr v \<Rightarrow> (Inr v, s))"

definition alloc_opt :: "ndarray option \<Rightarrow> addr option prog" where
  "alloc_opt r = (case r of None \<Rightarrow> ret None | Some arr \<Rightarrow> then_do (alloc arr) (\<lambda>a. ret (Some a)))"

definition deref_opt :: "addr option \<Rightarrow> ndarray option prog" where
  "deref_opt v = (case v of None \<Rightarrow> ret None | Some a \<Rightarrow> then_do (deref a) (\<lambda>arr. ret (Some arr)))"

section \<open>The library calls the notebook makes\<close>

definition cv2_imread :: "extlib \<Rightarrow> filesys \<Rightarrow> string \<Rightarrow> imread_flag \<Rightarrow> addr option prog" where
  "cv2_imread lib fs f flag =
     then_do (emit (Imread f flag)) (\<lambda>_.
     then_do (lift_lib (imread lib fs f flag)) alloc_opt)"

definition cv2_imdecode :: "extlib \<Rightarrow> addr \<Rightarrow> imread_flag \<Rightarrow> addr option prog" where
  "cv2_imdecode lib a flag =
     then_do (emit (Imdecode a flag)) (\<lambda>_.
     then_do (deref a) (\<lambda>arr.
     then_do (lift_lib (imdecode lib arr flag)) alloc_opt))"

definition cv2_cvtColor :: "extlib \<Rightarrow> addr option \<Rightarrow> conv_code \<Rightarrow> addr prog" where
  "cv2_cvtColor lib v code =
     then_do (emit (CvtColor v code)) (\<lambda>_.
     then_do (deref_opt v) (\<lambda>src.
     then_do (lift_lib (cvtColor lib src code)) alloc))"

text \<open>\<open>np.copy(a)\<close>: a new array with the shape, element type and contents of \<open>a\<close>.\<close>

definition np_copy :: "addr \<Rightarrow> addr prog" where
  "np_copy a = then_do (emit (NpCopy a)) (\<lambda>_. then_do (deref a) alloc)"

text \<open>\<open>np.asarray(img_bytes, dtype=np.uint8)\<close>: a flat array of the bytes.\<close>

definition flat_array :: "bytes \<Rightarrow> ndarray" where
  "flat_array b = \<lparr>shape = [word_of_nat (length b)], dtype = UInt8, buf = b\<rparr>"

definition np_asarray :: "bytes \<Rightarrow> addr prog" where
  "np_asarray b = then_do (emit NpAsarray) (\<lambda>_. alloc (flat_array b))"

definition apply_writes :: "(nat \<times> 8 word) list \<Rightarrow> 8 word list \<Rightarrow> 8 word list" where
  "apply_writes ws b = fold (\<lambda>w acc. acc[fst w := snd w]) ws b"

text \<open>
  \<open>cv2.rectangle(a, pt1, pt2, color=.., thickness=..)\<close> overwrites entries of the buffer
  of the array at \<open>a\<close> and nothing else.
\<close>

definition cv2_rectangle :: "extlib \<Rightarrow> addr \<Rightarrow> point \<Rightarrow> point \<Rightarrow> color \<Rightarrow> int option \<Rightarrow> unit prog" where
  "cv2_rectangle lib a pt1 pt2 col th =
     then_do (emit (Rectangle a pt1 pt2 col th)) (\<lambda>_.
     then_do (deref a) (\<lambda>arr.
     then_do (lift_lib (rectangle lib arr pt1 pt2 col th)) (\<lambda>ws.
     store a (arr\<lparr>buf := apply_writes ws (buf arr)\<rparr>))))"

definition yolo_return_predict :: "extlib \<Rightarrow> addr \<Rightarrow> detection list prog" where
  "yolo_return_predict lib a =
     then_do (emit (ReturnPredict a)) (\<lambda>_.
     then_do (deref a) (\<lambda>arr. lift_lib (return_predict lib arr)))"

definition TFNet :: "extlib \<Rightarrow> filesys \<Rightarrow> tfnet_options \<Rightarrow> unit prog" where
  "TFNet lib fs opts =
     then_do (emit (TFNetBuild opts)) (\<lambda>_. lift_lib (tfnet_build lib fs opts))"

definition plt_imshow :: "addr \<Rightarrow> unit prog" where
  "plt_imshow a = emit (Imshow a)"

text \<open>\<open>with open(p, "rb") as f: bytearray(f.read())\<close>.\<close>

definition open_read :: "filesys \<Rightarrow> string \<Rightarrow> bytes prog" where
  "open_read fs p =
     then_do (emit (OpenRead p)) (\<lambda>_.
       case files fs p of None \<Rightarrow> raise (FileNotFoundError p) | Some b \<Rightarrow> ret b)"

definition listdir :: "filesys \<Rightarrow> string \<Rightarrow> string list prog" where
  "listdir fs d =
     then_do (emit (Listdir d)) (\<lambda>_.
       case dirs fs d of None \<Rightarrow> raise (FileNotFoundError d) | Some names \<Rightarrow> ret names)"

section \<open>The functions of the notebook\<close>

text \<open>
  \<^verbatim>\<open>
  def loadImage(f):
      return cv2.cvtColor(cv2.imread(f, cv2.IMREAD_COLOR), cv2.COLOR_BGR2RGB)
  \<close>
\<close>

definition loadImage :: "extlib \<Rightarrow> filesys \<Rightarrow> string \<Rightarrow> addr prog" where
  "loadImage lib fs f =
     then_do (cv2_imread lib fs f IMREAD_COLOR) (\<lambda>v. cv2_cvtColor lib v COLOR_BGR2RGB)"

text \<open>
  Python's \<open>int(a / b)\<close> for integers \<open>a \<ge> 0\<close> and \<open>b > 0\<close>. The true division \<open>a / b\<close>
  yields the double nearest to the exact quotient, ties going to the even significand;
  \<open>int\<close> then drops the fraction. A double carries 53 significant bits: with
  \<open>e = \<lfloor>log\<^sub>2 (a / b)\<rfloor>\<close> the quotient is rounded to a multiple of \<open>2\<^bsup>e - 52\<^esup>\<close>. (For the
  dimensions of an array, below \<open>2\<^bsup>64\<^esup>\<close>, and \<open>b = 100\<close> the quotient is far inside the
  range of normal doubles, so neither overflow nor gradual underflow occurs.)
\<close>

function bit_length :: "int \<Rightarrow> nat" where
  "bit_length n = (if n \<le> 0 then 0 else Suc (bit_length (n div 2)))"
  by pat_completeness auto
termination
  by (relation "measure nat") auto

declare bit_length.simps [simp del]

definition round_half_even :: "int \<Rightarrow> int \<Rightarrow> int" where
  "round_half_even a b =
     (let q = a div b; r = a mod b
      in if 2 * r < b then q else if b < 2 * r then q + 1 else if even q then q else q + 1)"

definition quotient_exponent :: "int \<Rightarrow> int \<Rightarrow> int" where
  "quotient_exponent a b =
     (let d = int (bit_length a) - int (bit_length b)
      in if (if 0 \<le> d then b * 2 ^ nat d \<le> a else b \<le> a * 2 ^ nat (- d)) then d else d - 1)"

definition int_of_true_division :: "int \<Rightarrow> int \<Rightarrow> int" where
  "int_of_true_division a b =
     (if a = 0 then 0
      else let shift = 52 - quotient_exponent a b
           in if 0 \<le> shift
              then round_half_even (a * 2 ^ nat shift) b div 2 ^ nat shift
              else round_half_even a (b * 2 ^ nat (- shift)) * 2 ^ nat (- shift))"

text \<open>
  \<open>int(max(img.shape[0], img.shape[1]) / 100)\<close>. Indexing the shape of an array with
  fewer than two axes raises \<open>IndexError\<close>.
\<close>

definition default_thickness :: "ndarray \<Rightarrow> int prog" where
  "default_thickness arr =
     (if length (shape arr) < 2 then raise IndexError
      else ret (int_of_true_division (uint (max (shape arr ! 0) (shape arr ! 1))) 100))"

definition white :: color where
  "white = (255, 255, 255)"

text \<open>The body of the \<open>for\<close> loop of \<open>annotate\<close>, and the loop.\<close>

definition draw_box :: "extlib \<Rightarrow> addr \<Rightarrow> int \<Rightarrow> detection \<Rightarrow> unit prog" where
  "draw_box lib annotated_img thickness prediction =
     (let tl = topleft prediction;
          tl_pt = (coord_x tl, coord_y tl);
          br = bottomright prediction;
          br_pt = (coord_x br, coord_y br)
      in cv2_rectangle lib annotated_img tl_pt br_pt white (Some thickness))"

fun draw_boxes :: "extlib \<Rightarrow> addr \<Rightarrow> int \<Rightarrow> detection list \<Rightarrow> unit prog" where
  "draw_boxes lib annotated_img thickness [] = ret ()"
| "draw_boxes lib annotated_img thickness (prediction # rest) =
     then_do (draw_box lib annotated_img thickness prediction)
       (\<lambda>_. draw_boxes lib annotated_img thickness rest)"

text \<open>
  \<^verbatim>\<open>
  def annotate(img, predictions, thickness=None):
      annotated_img = np.copy(img)
      if thickness is None:
          thickness = int(max(img.shape[0], img.shape[1]) / 100)
      for prediction in predictions:
          ...
          cv2.rectangle(annotated_img, topleft, bottomright, color=white, thickness=thickness)
      return annotated_img
  \<close>
\<close>

definition annotate :: "extlib \<Rightarrow> addr \<Rightarrow> detection list \<Rightarrow> int option \<Rightarrow> addr prog" where
  "annotate lib img predictions thickness =
     then_do (np_copy img) (\<lambda>annotated_img.
     then_do (case thickness of
                None \<Rightarrow> then_do (deref img) default_thickness
              | Some t \<Rightarrow> ret t) (\<lambda>th.
     then_do (draw_boxes lib annotated_img th predictions) (\<lambda>_.
     ret annotated_img)))"

text \<open>
  \<^verbatim>\<open>
  def predict(imageFile):
      image = loadImage("/data/images/" + imageFile)
      predictions = yolo.return_predict(image)
      plt.imshow(annotate(image, predictions, thickness=5))
      return predictions
  \<close>
\<close>

definition predict :: "extlib \<Rightarrow> filesys \<Rightarrow> string \<Rightarrow> detection list prog" where
  "predict lib fs imageFile =
     then_do (loadImage lib fs (''/data/images/'' @ imageFile)) (\<lambda>image.
     then_do (yolo_return_predict lib image) (\<lambda>predictions.
     then_do (annotate lib image predictions (Some 5)) (\<lambda>annotated.
     then_do (plt_imshow annotated) (\<lambda>_.
     ret predictions))))"

section \<open>The top-level cells\<close>

definition yolo_options :: tfnet_options where
  "yolo_options =
     \<lparr>opt_model = ''cfg/yolo.cfg'', opt_load = ''/data/yolo.weights'', opt_threshold = 1 / 10\<rparr>"

text \<open>
  The byte-buffer cells:
  \<^verbatim>\<open>
  with open("otto.jpg", "rb") as f:
      img_bytes = bytearray(f.read())
  imgarr = np.asarray(img_bytes, dtype=np.uint8)
  img2 = cv2.imdecode(imgarr, cv2.IMREAD_COLOR)
  img2 = cv2.cvtColor(img2, cv2.COLOR_BGR2RGB)
  \<close>
  with the path as a parameter.
\<close>

definition decode_bytes :: "extlib \<Rightarrow> filesys \<Rightarrow> string \<Rightarrow> addr prog" where
  "decode_bytes lib fs p =
     then_do (open_read fs p) (\<lambda>img_bytes.
     then_do (np_asarray img_bytes) (\<lambda>imgarr.
     then_do (cv2_imdecode lib imgarr IMREAD_COLOR) (\<lambda>img2.
     cv2_cvtColor lib img2 COLOR_BGR2RGB)))"

text \<open>
  \<open>predict\<close> as the widget calls it, with whatever value the widget holds: on \<open>None\<close> the
  concatenation \<open>"/data/images/" + imageFile\<close> raises \<open>TypeError\<close> before anything is
  called.
\<close>

definition predict_value :: "extlib \<Rightarrow> filesys \<Rightarrow> string option \<Rightarrow> detection list prog" where
  "predict_value lib fs v =
     (case v of None \<Rightarrow> raise TypeError | Some imageFile \<Rightarrow> predict lib fs imageFile)"

text \<open>
  \<open>interact(predict, imageFile = listdir("/data/images/"))\<close> builds a dropdown of the
  listed names. When the widget is displayed it calls \<open>predict\<close> once with its value,
  which is the first listed name (\<open>None\<close> when nothing is listed), and it calls \<open>predict\<close>
  again each time the user changes the selection to another listed name. \<open>picks\<close> is the
  sequence of the user's picks: a name that is not on offer cannot be picked, and picking
  the current value changes nothing. The widget catches an exception of the callback
  (it displays the traceback), so the cell goes on.
\<close>

definition caught :: "'a prog \<Rightarrow> unit prog" where
  "caught m s = (case m s of (r, s') \<Rightarrow> (Inr (), s'))"

fun on_picks ::
  "(string option \<Rightarrow> 'b prog) \<Rightarrow> string list \<Rightarrow> string option \<Rightarrow> string list \<Rightarrow> unit prog" where
  "on_picks f offered current [] = ret ()"
| "on_picks f offered current (c # cs) =
     (if c \<in> set offered \<and> current \<noteq> Some c
      then then_do (caught (f (Some c))) (\<lambda>_. on_picks f offered (Some c) cs)
      else on_picks f offered current cs)"

definition interact ::
  "(string option \<Rightarrow> 'b prog) \<Rightarrow> string list \<Rightarrow> string list \<Rightarrow> unit prog" where
  "interact f offered picks =
     (let initial = (case offered of [] \<Rightarrow> None | first # others \<Rightarrow> Some first)
      in then_do (caught (f initial)) (\<lambda>_. on_picks f offered initial picks))"

text \<open>
  The cells of the notebook that read the file system or call the three functions, in
  order. The cells between them (\<open>img.shape\<close>, \<open>cv2.blur\<close>, \<open>cv2.resize\<close>,
  \<open>cv2.warpAffine\<close>, \<open>cv2.calcHist\<close>) hand \<open>img\<close> to a library transform and display the
  result; they read no file and assign none of the variables used below.
\<close>

definition notebook :: "extlib \<Rightarrow> filesys \<Rightarrow> string list \<Rightarrow> unit prog" where
  "notebook lib fs picks =
     then_do (loadImage lib fs ''otto.jpg'') (\<lambda>img.
     then_do (plt_imshow img) (\<lambda>_.
     then_do (decode_bytes lib fs ''otto.jpg'') (\<lambda>img2.
     then_do (plt_imshow img2) (\<lambda>_.
     then_do (TFNet lib fs yolo_options) (\<lambda>_.
     then_do (yolo_return_predict lib img) (\<lambda>predictions.
     then_do (annotate lib img predictions None) (\<lambda>annotated.
     then_do (plt_imshow annotated) (\<lambda>_.
     then_do (listdir fs ''/data/images/'') (\<lambda>offered.
     interact (predict_value lib fs) offered picks)))))))))"

definition init_state :: state where
  "init_state = \<lparr>heap = [], trace = []\<rparr>"

section \<open>Observations\<close>

text \<open>The paths of the files an event reads.\<close>

fun event_paths :: "event \<Rightarrow> string list" where
  "event_paths (Imread f flag) = [f]"
| "event_paths (OpenRead p) = [p]"
| "event_paths (TFNetBuild opts) = [opt_model opts, opt_load opts]"
| "event_paths ev = []"

definition file_reads :: "event list \<Rightarrow> string list" where
  "file_reads evs = concat (map event_paths evs)"

definition hard_coded_paths :: "string set" where
  "hard_coded_paths = {''otto.jpg'', ''cfg/yolo.cfg'', ''/data/yolo.weights''}"

text \<open>The names the widget offers: the entries of \<open>/data/images/\<close>.\<close>

definition offered_names :: "filesys \<Rightarrow> string list" where
  "offered_names fs = (case dirs fs ''/data/images/'' of None \<Rightarrow> [] | Some names \<Rightarrow> names)"

text \<open>
  A computation only appends to the trace, and the files its new events read are all
  in \<open>P\<close>.
\<close>

definition emits_within :: "string set \<Rightarrow> 'a prog \<Rightarrow> bool" where
  "emits_within P m \<longleftrightarrow>
     (\<forall>s. \<exists>evs. trace (snd (m s)) = trace s @ evs \<and> set (file_reads evs) \<subseteq> P)"

text \<open>The array a call returned, or the error it raised.\<close>

definition result_array :: "(error + addr) \<times> state \<Rightarrow> error + ndarray" where
  "result_array r =
     (case r of (Inl e, s) \<Rightarrow> Inl e
      | (Inr a, s) \<Rightarrow> if a < length (heap s) then Inr (heap s ! a) else Inl DanglingRef)"

text \<open>What the caller of a library function sees: the value, or the library's exception.\<close>

definition lib_result :: "libexn + 'a \<Rightarrow> error + 'a" where
  "lib_result r = (case r of Inl e \<Rightarrow> Inl (External e) | Inr v \<Rightarrow> Inr v)"

text \<open>The \<open>cv2.rectangle\<close> calls that \<open>annotate\<close> makes for a list of predictions.\<close>

definition rect_event :: "addr \<Rightarrow> int option \<Rightarrow> detection \<Rightarrow> event" where
  "rect_event a th p =
     Rectangle a (coord_x (topleft p), coord_y (topleft p))
       (coord_x (bottomright p), coord_y (bottomright p)) white th"

text \<open>The thickness argument of each \<open>cv2.rectangle\<close> call in a trace.\<close>

fun rectangle_thickness :: "event \<Rightarrow> int option list" where
  "rectangle_thickness (Rectangle a pt1 pt2 col th) = [th]"
| "rectangle_thickness ev = []"

definition thicknesses :: "event list \<Rightarrow> int option list" where
  "thicknesses evs = concat (map rectangle_thickness evs)"

text \<open>The array each \<open>cv2.rectangle\<close> call in a trace draws on.\<close>

fun rectangle_target :: "event \<Rightarrow> addr list" where
  "rectangle_target (Rectangle a pt1 pt2 col th) = [a]"
| "rectangle_target ev = []"

definition drawn_on :: "event list \<Rightarrow> addr list" where
  "drawn_on evs = concat (map rectangle_target evs)"

text \<open>The thickness \<open>annotate\<close> draws with: the argument, or the default computed from the image.\<close>

definition thickness_used :: "ndarray \<Rightarrow> int option \<Rightarrow> int" where
  "thickness_used arr th =
     (case th of
        None \<Rightarrow> int_of_true_division (uint (max (shape arr ! 0) (shape arr ! 1))) 100
      | Some t \<Rightarrow> t)"

text \<open>
  Two stores that differ at most in the buffer contents of the array at \<open>a\<close>: the same
  arrays everywhere else, and at \<open>a\<close> the same shape, element type and buffer length.
\<close>

definition same_but :: "addr \<Rightarrow> ndarray list \<Rightarrow> ndarray list \<Rightarrow> bool" where
  "same_but a h h' \<longleftrightarrow>
     length h' = length h \<and> (\<forall>i. i \<noteq> a \<longrightarrow> h' ! i = h ! i) \<and>
     shape (h' ! a) = shape (h ! a) \<and> dtype (h' ! a) = dtype (h ! a) \<and>
     length (buf (h' ! a)) = length (buf (h ! a))"

section \<open>The helper routines as the specification describes them\<close>

text \<open>
  The specification calls both helpers "direct delegation to an external library with no
  conditional logic". Read literally, \<open>annotate\<close> would copy the image and hand each
  bounding box to \<open>cv2.rectangle\<close> together with the \<open>thickness\<close> argument as it was
  received, and \<open>loadImage\<close> would be \<open>cv2.imread\<close> followed by \<open>cv2.cvtColor\<close>.
\<close>

definition loadImage_delegation :: "extlib \<Rightarrow> filesys \<Rightarrow> string \<Rightarrow> addr prog" where
  "loadImage_delegation lib fs f =
     then_do (cv2_imread lib fs f IMREAD_COLOR) (\<lambda>v. cv2_cvtColor lib v COLOR_BGR2RGB)"

fun delegate_boxes :: "extlib \<Rightarrow> addr \<Rightarrow> int option \<Rightarrow> detection list \<Rightarrow> unit prog" where
  "delegate_boxes lib a th [] = ret ()"
| "delegate_boxes lib a th (p # ps) =
     then_do (cv2_rectangle lib a (coord_x (topleft p), coord_y (topleft p))
                (coord_x (bottomright p), coord_y (bottomright p)) white th)
       (\<lambda>_. delegate_boxes lib a th ps)"

definition annotate_delegation :: "extlib \<Rightarrow> addr \<Rightarrow> detection list \<Rightarrow> int option \<Rightarrow> addr prog" where
  "annotate_delegation lib img predictions thickness =
     then_do (np_copy img) (\<lambda>annotated_img.
     then_do (delegate_boxes lib annotated_img thickness predictions) (\<lambda>_.
     ret annotated_img))"

section \<open>A small library to run the notebook on\<close>

text \<open>
  A stand-in for the libraries, used to evaluate the functions at concrete inputs. Its
  decoder reads a file of raw pixel bytes as an image of one row with three channels; a
  missing file decodes to \<open>None\<close>, and \<open>cvtColor\<close> rejects \<open>None\<close> and every array that
  is not a three-axis \<open>uint8\<close> image. Its
  \<open>rectangle\<close> paints the first channel of the two corner pixels, where they lie inside
  the image.
\<close>

fun swap_rb :: "'a list \<Rightarrow> 'a list" where
  "swap_rb (b # g # r # rest) = r # g # b # swap_rb rest"
| "swap_rb rest = rest"

definition toy_decode :: "bytes \<Rightarrow> ndarray" where
  "toy_decode b = \<lparr>shape = [1, word_of_nat (length b div 3), 3], dtype = UInt8, buf = b\<rparr>"

definition toy_corner :: "ndarray \<Rightarrow> point \<Rightarrow> (nat \<times> 8 word) list" where
  "toy_corner arr pt =
     (case shape arr of
        [h, w, c] \<Rightarrow>
          if 0 \<le> fst pt \<and> fst pt < uint w \<and> 0 \<le> snd pt \<and> snd pt < uint h
          then [((nat (snd pt) * unat w + nat (fst pt)) * unat c, 255)] else []
      | _ \<Rightarrow> [])"

definition toy_lib :: extlib where
  "toy_lib =
     \<lparr>imread = (\<lambda>fs f flag. Inr (map_option toy_decode (files fs f))),
      imdecode = (\<lambda>arr flag. Inr (Some (toy_decode (buf arr)))),
      cvtColor = (\<lambda>src code.
         case src of None \<Rightarrow> Inl ''cvtColor: empty source''
         | Some arr \<Rightarrow>
             if length (shape arr) = 3 \<and> dtype arr = UInt8
             then Inr (arr\<lparr>buf := swap_rb (buf arr)\<rparr>)
             else Inl ''cvtColor: unsupported source''),
      rectangle = (\<lambda>arr pt1 pt2 col th. Inr (toy_corner arr pt1 @ toy_corner arr pt2)),
      tfnet_build = (\<lambda>fs opts.
         if files fs (opt_model opts) = None \<or> files fs (opt_load opts) = None
         then Inl ''TFNet: file not found'' else Inr ()),
      return_predict = (\<lambda>arr.
         Inr [\<lparr>label = ''dog'', confidence = 1 / 2, topleft = Coord 0 0, bottomright = Coord 1 0\<rparr>])\<rparr>"

definition toy_fs :: filesys where
  "toy_fs =
     \<lparr>files = [''otto.jpg'' \<mapsto> [1, 2, 3, 4, 5, 6], ''cfg/yolo.cfg'' \<mapsto> [], ''/data/yolo.weights'' \<mapsto> [],
               ''/data/images/a.jpg'' \<mapsto> [7, 8, 9]],
      dirs = [''/data/images/'' \<mapsto> [''a.jpg'']]\<rparr>"

definition toy_image :: ndarray where
  "toy_image = \<lparr>shape = [1, 2, 3], dtype = UInt8, buf = [1, 2, 3, 4, 5, 6]\<rparr>"

definition toy_state :: state where
  "toy_state = \<lparr>heap = [toy_image], trace = []\<rparr>"

definition dog :: detection where
  "dog = \<lparr>label = ''dog'', confidence = 1 / 2, topleft = Coord 0 0, bottomright = Coord 1 0\<rparr>"

definition cat :: detection where
  "cat = \<lparr>label = ''cat'', confidence = 1 / 4, topleft = Coord 0 0, bottomright = Coord 1 0\<rparr>"

section \<open>The default thickness: rounding to a double\<close>

lemma bit_length_bound: "n < 2 ^ k \<Longrightarrow> bit_length n \<le> k"
proof (induction k arbitrary: n)
  case 0
  then show ?case by (simp add: bit_length.simps)
next
  case (Suc k)
  show ?case
  proof (cases "n \<le> 0")
    case True
    then show ?thesis by (simp add: bit_length.simps)
  next
    case False
    from Suc.prems have "n div 2 < 2 ^ k" by simp
    from Suc.IH [OF this] False show ?thesis
      by (subst bit_length.simps) simp
  qed
qed

lemma bit_length_100: "bit_length 100 = 7"
  by code_simp

lemma round_half_even_bounds:
  "a div b \<le> round_half_even a b" "round_half_even a b \<le> a div b + 1"
  "2 * (a mod b) < b \<Longrightarrow> round_half_even a b = a div b"
  by (simp_all add: round_half_even_def Let_def)

lemma rounded_quotient_floor:
  assumes s: "6 \<le> s" and a: "0 \<le> a"
  shows "round_half_even (a * 2 ^ s) 100 div 2 ^ s = a div 100"
proof -
  let ?q = "a div 100" and ?N = "a * 2 ^ s" and ?M = "round_half_even (a * 2 ^ s) 100"
  let ?P = "(2::int) ^ s"
  have p64: "64 \<le> ?P"
  proof -
    have "(2::int) ^ 6 \<le> 2 ^ s" using s by (rule power_increasing) simp
    then show ?thesis by simp
  qed
  have a_lo: "100 * ?q \<le> a" and a_hi: "a \<le> 100 * ?q + 99"
    by presburger+
  have N_lo: "100 * (?q * ?P) \<le> ?N"
    using a_lo p64 by (simp add: mult.assoc [symmetric])
  have "?N \<le> (100 * ?q + 99) * ?P"
    using a_hi p64 by (intro mult_right_mono) simp_all
  also have "\<dots> = 100 * (?q * ?P) + 99 * ?P"
    by (simp add: algebra_simps)
  finally have N_hi: "?N + ?P \<le> 100 * (?q * ?P) + 100 * ?P"
    by simp
  let ?D = "?N div 100" and ?R = "?N mod 100"
  let ?K = "?q * ?P"
  have eq: "?N = 100 * ?D + ?R" by simp
  have R: "0 \<le> ?R" "?R < 100" by simp_all
  have lower: "?K \<le> ?M"
  proof -
    from N_lo eq R have "?K \<le> ?D" by linarith
    also have "\<dots> \<le> ?M" by (rule round_half_even_bounds(1))
    finally show ?thesis .
  qed
  have upper: "?M < ?K + ?P"
  proof -
    from N_hi p64 eq have le: "100 * ?D + ?R + 64 \<le> 100 * ?K + 100 * ?P"
      by linarith
    show ?thesis
    proof (cases "?D + 1 < ?K + ?P")
      case True
      with round_half_even_bounds(2) [of ?N 100] show ?thesis
        by linarith
    next
      case False
      with le R have "?R \<le> 36" and "?D < ?K + ?P" by linarith+
      with round_half_even_bounds(3) [of ?N 100] show ?thesis
        by simp
    qed
  qed
  have "?M = ?P * ?q + (?M - ?K)" by (simp add: mult.commute)
  moreover from lower have "0 \<le> ?M - ?K" by simp
  moreover from upper have "?M - ?K < ?P" by simp
  ultimately show ?thesis by (rule int_div_pos_eq)
qed

lemma quotient_exponent_small:
  assumes "a < 100 * 2 ^ 47"
  shows "quotient_exponent a 100 \<le> 46"
proof -
  from assms have "a < 2 ^ 54" by simp
  then have bl: "bit_length a \<le> 54" by (rule bit_length_bound)
  show ?thesis
  proof (cases "bit_length a = 54")
    case True
    with assms show ?thesis
      by (simp add: quotient_exponent_def bit_length_100 Let_def)
  next
    case False
    with bl have "bit_length a \<le> 53" by simp
    then show ?thesis
      by (auto simp add: quotient_exponent_def bit_length_100 Let_def)
  qed
qed

lemma int_of_true_division_floor:
  assumes "0 \<le> a" and "a < 100 * 2 ^ 47"
  shows "int_of_true_division a 100 = a div 100"
proof (cases "a = 0")
  case True
  then show ?thesis by (simp add: int_of_true_division_def)
next
  case False
  let ?shift = "52 - quotient_exponent a 100"
  from quotient_exponent_small [OF assms(2)] have sh: "6 \<le> ?shift" by simp
  then have "6 \<le> nat ?shift" by simp
  from rounded_quotient_floor [OF this assms(1)] sh False show ?thesis
    by (simp add: int_of_true_division_def Let_def)
qed

text \<open>
  From the dimension \<open>100 * 2\<^bsup>47\<^esup> + 99\<close> on the rounding shows: the quotient
  \<open>140737488355328.99\<close> is nearer to the double \<open>140737488355329\<close> than to the one below
  it.
\<close>

lemma int_of_true_division_rounds_up:
  "int_of_true_division 14073748835532899 100 = 140737488355329"
  by code_simp

lemma default_thickness_small:
  fixes m :: "64 word"
  assumes "m < 100"
  shows "int_of_true_division (uint m) 100 = 0"
proof -
  from assms have "uint m < 100"
    by (simp add: word_less_def)
  then show ?thesis
    by (simp add: int_of_true_division_floor)
qed

section \<open>Sequencing and the store\<close>

lemma then_do_ret: "then_do (ret v) f = f v"
  by (rule ext) (simp add: then_do_def ret_def)

lemma same_but_refl: "same_but a h h"
  by (simp add: same_but_def)

lemma same_but_trans: "same_but a h h' \<Longrightarrow> same_but a h' h'' \<Longrightarrow> same_but a h h''"
  by (simp add: same_but_def)

lemma length_apply_writes: "length (apply_writes ws b) = length b"
  unfolding apply_writes_def by (induction ws arbitrary: b) simp_all

lemma np_copy_eq:
  "np_copy a s =
     (if a < length (heap s)
      then (Inr (length (heap s)), s\<lparr>trace := trace s @ [NpCopy a], heap := heap s @ [heap s ! a]\<rparr>)
      else (Inl DanglingRef, s\<lparr>trace := trace s @ [NpCopy a]\<rparr>))"
  by (simp add: np_copy_def then_do_def emit_def deref_def alloc_def)

lemma cv2_rectangle_eq:
  "cv2_rectangle lib a p q c t s =
     (let s1 = s\<lparr>trace := trace s @ [Rectangle a p q c t]\<rparr> in
      if a < length (heap s) then
        (case rectangle lib (heap s ! a) p q c t of
           Inl e \<Rightarrow> (Inl (External e), s1)
         | Inr ws \<Rightarrow> (Inr (), s1\<lparr>heap := (heap s)[a := (heap s ! a)\<lparr>buf := apply_writes ws (buf (heap s ! a))\<rparr>]\<rparr>))
      else (Inl DanglingRef, s1))"
  by (simp add: cv2_rectangle_def then_do_def emit_def deref_def lift_lib_def store_def Let_def
      split: sum.splits)

lemma cv2_rectangle_same_but:
  "same_but a (heap s) (heap (snd (cv2_rectangle lib a p q c t s)))"
  by (simp add: cv2_rectangle_eq Let_def same_but_def length_apply_writes split: sum.splits)

lemma cv2_rectangle_trace:
  "trace (snd (cv2_rectangle lib a p q c t s)) = trace s @ [Rectangle a p q c t]"
  by (simp add: cv2_rectangle_eq Let_def split: sum.splits)

lemma draw_box_eq:
  "draw_box lib a th p =
     cv2_rectangle lib a (coord_x (topleft p), coord_y (topleft p))
       (coord_x (bottomright p), coord_y (bottomright p)) white (Some th)"
  by (simp add: draw_box_def Let_def)

lemma draw_box_same_but:
  "same_but a (heap s) (heap (snd (draw_box lib a th p s)))"
  by (simp add: draw_box_eq cv2_rectangle_same_but)

lemma draw_box_trace:
  "trace (snd (draw_box lib a th p s)) = trace s @ [rect_event a (Some th) p]"
  by (simp add: draw_box_eq cv2_rectangle_trace rect_event_def)

lemma draw_boxes_same_but:
  "same_but a (heap s) (heap (snd (draw_boxes lib a th ps s)))"
proof (induction ps arbitrary: s)
  case Nil
  show ?case by (simp add: ret_def same_but_refl)
next
  case (Cons p ps)
  obtain r s1 where step: "draw_box lib a th p s = (r, s1)"
    by (cases "draw_box lib a th p s")
  have one: "same_but a (heap s) (heap s1)"
    using draw_box_same_but [of a s lib th p] step by simp
  show ?case
  proof (cases r)
    case (Inl e)
    with step one show ?thesis by (simp add: then_do_def)
  next
    case (Inr u)
    with step have "draw_boxes lib a th (p # ps) s = draw_boxes lib a th ps s1"
      by (simp add: then_do_def)
    with one Cons.IH [of s1] show ?thesis
      by (auto intro: same_but_trans)
  qed
qed

lemma draw_boxes_trace:
  "\<exists>k\<le>length ps.
     trace (snd (draw_boxes lib a th ps s)) = trace s @ map (rect_event a (Some th)) (take k ps) \<and>
     (fst (draw_boxes lib a th ps s) = Inr () \<longrightarrow> k = length ps)"
proof (induction ps arbitrary: s)
  case Nil
  show ?case by (simp add: ret_def)
next
  case (Cons p ps)
  obtain r s1 where step: "draw_box lib a th p s = (r, s1)"
    by (cases "draw_box lib a th p s")
  have tr: "trace s1 = trace s @ [rect_event a (Some th) p]"
    using draw_box_trace [of lib a th p s] step by simp
  show ?case
  proof (cases r)
    case (Inl e)
    with step tr have "trace (snd (draw_boxes lib a th (p # ps) s)) =
        trace s @ map (rect_event a (Some th)) (take 1 (p # ps))"
      and "fst (draw_boxes lib a th (p # ps) s) \<noteq> Inr ()"
      by (simp_all add: then_do_def)
    then show ?thesis
      by (intro exI [of _ 1]) simp
  next
    case (Inr u)
    with step have eq: "draw_boxes lib a th (p # ps) s = draw_boxes lib a th ps s1"
      by (simp add: then_do_def)
    from Cons.IH [of s1] obtain k where k: "k \<le> length ps"
      "trace (snd (draw_boxes lib a th ps s1)) = trace s1 @ map (rect_event a (Some th)) (take k ps)"
      "fst (draw_boxes lib a th ps s1) = Inr () \<longrightarrow> k = length ps"
      by blast
    show ?thesis
      using k tr eq by (intro exI [of _ "Suc k"]) simp
  qed
qed

lemma annotate_eq:
  "annotate lib img ps th s =
     (let s0 = s\<lparr>trace := trace s @ [NpCopy img]\<rparr> in
      if img < length (heap s) then
        (let r = length (heap s); s1 = s0\<lparr>heap := heap s @ [heap s ! img]\<rparr> in
         if th = None \<and> length (shape (heap s ! img)) < 2 then (Inl IndexError, s1)
         else
           (let t = thickness_used (heap s ! img) th in
            case draw_boxes lib r t ps s1 of
              (Inl e, s2) \<Rightarrow> (Inl e, s2)
            | (Inr u, s2) \<Rightarrow> (Inr r, s2)))
      else (Inl DanglingRef, s0))"
  by (simp add: annotate_def then_do_def np_copy_eq deref_def default_thickness_def ret_def
      raise_def Let_def nth_append thickness_used_def split: option.splits prod.splits sum.splits)

section \<open>What \<open>annotate\<close> does to the store and which calls it makes\<close>

lemma thicknesses_rect_events:
  "thicknesses (map (rect_event a th) qs) = replicate (length qs) th"
  by (induction qs) (simp_all add: thicknesses_def rect_event_def)

lemma drawn_on_rect_events:
  "drawn_on (map (rect_event a th) qs) = replicate (length qs) a"
  by (induction qs) (simp_all add: drawn_on_def rect_event_def)

lemma same_but_fresh:
  assumes "same_but (length h) (h @ [x]) h'"
  shows "take (length h) h' = h" and "length h' = Suc (length h)"
    and "shape (h' ! length h) = shape x" and "dtype (h' ! length h) = dtype x"
    and "length (buf (h' ! length h)) = length (buf x)"
proof -
  from assms show len: "length h' = Suc (length h)"
    by (simp add: same_but_def)
  from assms have "\<forall>i<length h. h' ! i = h ! i"
    by (simp add: same_but_def nth_append)
  with len show "take (length h) h' = h"
    by (intro nth_equalityI) simp_all
  from assms show "shape (h' ! length h) = shape x" "dtype (h' ! length h) = dtype x"
    "length (buf (h' ! length h)) = length (buf x)"
    by (simp_all add: same_but_def)
qed

lemma annotate_good:
  assumes "img < length (heap s)" and "th \<noteq> None \<or> 2 \<le> length (shape (heap s ! img))"
  shows "annotate lib img ps th s =
     (case draw_boxes lib (length (heap s)) (thickness_used (heap s ! img) th) ps
             (s\<lparr>trace := trace s @ [NpCopy img], heap := heap s @ [heap s ! img]\<rparr>) of
        (Inl e, s2) \<Rightarrow> (Inl e, s2)
      | (Inr u, s2) \<Rightarrow> (Inr (length (heap s)), s2))"
  using assms by (auto simp add: annotate_eq Let_def split: option.splits)

lemma annotate_Inr:
  assumes "fst (annotate lib img ps th s) = Inr r"
  shows "img < length (heap s)" and "th \<noteq> None \<or> 2 \<le> length (shape (heap s ! img))"
    and "r = length (heap s)"
    and "snd (annotate lib img ps th s) =
      snd (draw_boxes lib (length (heap s)) (thickness_used (heap s ! img) th) ps
             (s\<lparr>trace := trace s @ [NpCopy img], heap := heap s @ [heap s ! img]\<rparr>))"
    and "fst (draw_boxes lib (length (heap s)) (thickness_used (heap s ! img) th) ps
             (s\<lparr>trace := trace s @ [NpCopy img], heap := heap s @ [heap s ! img]\<rparr>)) = Inr ()"
proof -
  show a: "img < length (heap s)"
    using assms by (simp add: annotate_eq Let_def split: if_splits)
  show b: "th \<noteq> None \<or> 2 \<le> length (shape (heap s ! img))"
    using assms a by (auto simp add: annotate_eq Let_def split: if_splits)
  show "r = length (heap s)"
    using assms by (simp add: annotate_good [OF a b] split: prod.splits sum.splits)
  show "snd (annotate lib img ps th s) =
      snd (draw_boxes lib (length (heap s)) (thickness_used (heap s ! img) th) ps
             (s\<lparr>trace := trace s @ [NpCopy img], heap := heap s @ [heap s ! img]\<rparr>))"
    by (simp add: annotate_good [OF a b] split: prod.splits sum.splits)
  show "fst (draw_boxes lib (length (heap s)) (thickness_used (heap s ! img) th) ps
             (s\<lparr>trace := trace s @ [NpCopy img], heap := heap s @ [heap s ! img]\<rparr>)) = Inr ()"
    using assms by (simp add: annotate_good [OF a b] split: prod.splits sum.splits)
qed

lemma annotate_snd_good:
  assumes "img < length (heap s)" and "th \<noteq> None \<or> 2 \<le> length (shape (heap s ! img))"
  shows "snd (annotate lib img ps th s) =
      snd (draw_boxes lib (length (heap s)) (thickness_used (heap s ! img) th) ps
             (s\<lparr>trace := trace s @ [NpCopy img], heap := heap s @ [heap s ! img]\<rparr>))"
  by (simp add: annotate_good [OF assms] split: prod.splits sum.splits)

lemma annotate_heap_prefix:
  "take (length (heap s)) (heap (snd (annotate lib img ps th s))) = heap s"
proof (cases "img < length (heap s) \<and> (th \<noteq> None \<or> 2 \<le> length (shape (heap s ! img)))")
  case True
  then have snd_eq: "snd (annotate lib img ps th s) =
      snd (draw_boxes lib (length (heap s)) (thickness_used (heap s ! img) th) ps
             (s\<lparr>trace := trace s @ [NpCopy img], heap := heap s @ [heap s ! img]\<rparr>))"
    by (simp add: annotate_snd_good)
  have "same_but (length (heap s)) (heap s @ [heap s ! img]) (heap (snd (annotate lib img ps th s)))"
    unfolding snd_eq
    using draw_boxes_same_but [of "length (heap s)"
        "s\<lparr>trace := trace s @ [NpCopy img], heap := heap s @ [heap s ! img]\<rparr>" lib]
    by simp
  then show ?thesis by (rule same_but_fresh(1))
next
  case False
  then show ?thesis
    by (auto simp add: annotate_eq Let_def)
qed

lemma annotate_result_array:
  assumes "fst (annotate lib img ps th s) = Inr r"
  shows "r = length (heap s)" "img < length (heap s)"
    "length (heap (snd (annotate lib img ps th s))) = Suc (length (heap s))"
    "shape (heap (snd (annotate lib img ps th s)) ! r) = shape (heap s ! img)"
    "dtype (heap (snd (annotate lib img ps th s)) ! r) = dtype (heap s ! img)"
    "length (buf (heap (snd (annotate lib img ps th s)) ! r)) = length (buf (heap s ! img))"
proof -
  note facts = annotate_Inr [OF assms]
  show r: "r = length (heap s)" and "img < length (heap s)"
    using facts by simp_all
  have sb: "same_but (length (heap s)) (heap s @ [heap s ! img]) (heap (snd (annotate lib img ps th s)))"
    unfolding facts(4)
    using draw_boxes_same_but [of "length (heap s)"
        "s\<lparr>trace := trace s @ [NpCopy img], heap := heap s @ [heap s ! img]\<rparr>" lib]
    by simp
  show "length (heap (snd (annotate lib img ps th s))) = Suc (length (heap s))"
    "shape (heap (snd (annotate lib img ps th s)) ! r) = shape (heap s ! img)"
    "dtype (heap (snd (annotate lib img ps th s)) ! r) = dtype (heap s ! img)"
    "length (buf (heap (snd (annotate lib img ps th s)) ! r)) = length (buf (heap s ! img))"
    using same_but_fresh [OF sb] r by simp_all
qed

lemma annotate_trace:
  assumes "img < length (heap s)" and "th \<noteq> None \<or> 2 \<le> length (shape (heap s ! img))"
  shows "\<exists>k\<le>length ps.
     trace (snd (annotate lib img ps th s)) =
       trace s @ NpCopy img #
         map (rect_event (length (heap s)) (Some (thickness_used (heap s ! img) th))) (take k ps) \<and>
     (fst (annotate lib img ps th s) = Inr (length (heap s)) \<longrightarrow> k = length ps)"
proof -
  let ?s1 = "s\<lparr>trace := trace s @ [NpCopy img], heap := heap s @ [heap s ! img]\<rparr>"
  let ?t = "thickness_used (heap s ! img) th"
  from draw_boxes_trace [of ps lib "length (heap s)" ?t ?s1]
  obtain k where k: "k \<le> length ps"
    "trace (snd (draw_boxes lib (length (heap s)) ?t ps ?s1)) =
       trace ?s1 @ map (rect_event (length (heap s)) (Some ?t)) (take k ps)"
    "fst (draw_boxes lib (length (heap s)) ?t ps ?s1) = Inr () \<longrightarrow> k = length ps"
    by blast
  have "fst (annotate lib img ps th s) = Inr (length (heap s)) \<longrightarrow> k = length ps"
    using k(3) annotate_Inr(5) [of lib img ps th s "length (heap s)"] by blast
  with k(1,2) show ?thesis
    by (intro exI [of _ k]) (simp add: annotate_snd_good [OF assms])
qed

lemma annotate_bad_trace:
  assumes "\<not> (img < length (heap s) \<and> (th \<noteq> None \<or> 2 \<le> length (shape (heap s ! img))))"
  shows "trace (snd (annotate lib img ps th s)) = trace s @ [NpCopy img]"
  using assms by (auto simp add: annotate_eq Let_def)

lemma draw_boxes_returns:
  assumes "\<forall>arr p q c t. \<exists>ws. rectangle lib arr p q c t = Inr ws"
  shows "a < length (heap s) \<Longrightarrow> fst (draw_boxes lib a th ps s) = Inr ()"
proof (induction ps arbitrary: s)
  case Nil
  show ?case by (simp add: ret_def)
next
  case (Cons p ps)
  let ?p1 = "(coord_x (topleft p), coord_y (topleft p))"
  let ?p2 = "(coord_x (bottomright p), coord_y (bottomright p))"
  from assms obtain ws where ws: "rectangle lib (heap s ! a) ?p1 ?p2 white (Some th) = Inr ws"
    by blast
  obtain s1 where step: "draw_box lib a th p s = (Inr (), s1)" and len: "length (heap s1) = length (heap s)"
    using Cons.prems ws by (simp add: draw_box_eq cv2_rectangle_eq Let_def)
  from len Cons.prems have "a < length (heap s1)" by simp
  from Cons.IH [OF this] step show ?case
    by (simp add: then_do_def)
qed

section \<open>Properties of \<open>annotate\<close>\<close>

text \<open>
  C1. \<open>annotate(img, predictions)\<close> leaves the input array unchanged: every array that
  existed before the call is the same after it (whether the call returns or raises),
  every \<open>cv2.rectangle\<close> call draws on the array that \<open>np.copy\<close> created, and the array
  returned is that new array, at an address distinct from \<open>img\<close>.
\<close>

theorem annotate_leaves_input_unchanged:
  "take (length (heap s)) (heap (snd (annotate lib img ps th s))) = heap s \<and>
   set (drawn_on (drop (length (trace s)) (trace (snd (annotate lib img ps th s))))) \<subseteq> {length (heap s)} \<and>
   (\<forall>r. fst (annotate lib img ps th s) = Inr r \<longrightarrow>
      r \<noteq> img \<and> img < length (heap s) \<and> r = length (heap s) \<and>
      r < length (heap (snd (annotate lib img ps th s))))"
proof (intro conjI allI impI)
  show "take (length (heap s)) (heap (snd (annotate lib img ps th s))) = heap s"
    by (rule annotate_heap_prefix)
  show "set (drawn_on (drop (length (trace s)) (trace (snd (annotate lib img ps th s))))) \<subseteq> {length (heap s)}"
  proof (cases "img < length (heap s) \<and> (th \<noteq> None \<or> 2 \<le> length (shape (heap s ! img)))")
    case True
    then obtain k where
      "trace (snd (annotate lib img ps th s)) =
         trace s @ NpCopy img #
           map (rect_event (length (heap s)) (Some (thickness_used (heap s ! img) th))) (take k ps)"
      using annotate_trace [of img s th ps lib] by blast
    then have "drawn_on (drop (length (trace s)) (trace (snd (annotate lib img ps th s)))) =
        replicate (length (take k ps)) (length (heap s))"
      using drawn_on_rect_events [of "length (heap s)" _ "take k ps"]
      by (simp add: drawn_on_def)
    then show ?thesis by auto
  next
    case False
    then show ?thesis
      by (simp add: annotate_bad_trace drawn_on_def)
  qed
next
  fix r assume r: "fst (annotate lib img ps th s) = Inr r"
  note facts = annotate_result_array [OF r]
  from facts show "r \<noteq> img" by simp
  from facts show "img < length (heap s)" by simp
  from facts show "r = length (heap s)" by simp
  from facts show "r < length (heap (snd (annotate lib img ps th s)))" by simp
qed

theorem annotate_leaves_input_unchanged_witness:
  "fst (annotate toy_lib 0 [dog] None toy_state) = Inr 1 \<and>
   heap (snd (annotate toy_lib 0 [dog] None toy_state)) ! 0 = toy_image \<and>
   buf (heap (snd (annotate toy_lib 0 [dog] None toy_state)) ! 1) \<noteq> buf toy_image"
proof -
  have ev: "annotate toy_lib 0 [dog] None toy_state =
      (Inr 1, \<lparr>heap = [toy_image, toy_image\<lparr>buf := [255, 2, 3, 255, 5, 6]\<rparr>],
               trace = [NpCopy 0, Rectangle 1 (0, 0) (1, 0) white (Some 0)]\<rparr>)"
    by code_simp
  have pre: "take (length (heap toy_state)) (heap (snd (annotate toy_lib 0 [dog] None toy_state))) =
      heap toy_state"
    using annotate_leaves_input_unchanged [of toy_state toy_lib 0 "[dog]" None] by blast
  have "take (length (heap toy_state)) (heap (snd (annotate toy_lib 0 [dog] None toy_state))) ! 0 =
      heap toy_state ! 0"
    by (simp only: pre)
  then have "heap (snd (annotate toy_lib 0 [dog] None toy_state)) ! 0 = toy_image"
    by (simp add: toy_state_def)
  then show ?thesis
    by (simp add: ev toy_image_def)
qed

text \<open>
  C8. With no detections \<open>annotate\<close> is the identity on pixel values: for an image (an
  array with at least the two axes the default thickness reads, or any array when a
  thickness is given), \<open>annotate(img, [])\<close> returns a new array whose shape, element type
  and contents are those of \<open>img\<close>, and makes no library call but \<open>np.copy\<close>.
\<close>

theorem annotate_no_detections_identity:
  assumes "img < length (heap s)" and "th \<noteq> None \<or> 2 \<le> length (shape (heap s ! img))"
  shows "annotate lib img [] th s =
           (Inr (length (heap s)),
            s\<lparr>trace := trace s @ [NpCopy img], heap := heap s @ [heap s ! img]\<rparr>) \<and>
         heap (snd (annotate lib img [] th s)) ! length (heap s) = heap s ! img"
  using assms by (simp add: annotate_good ret_def)

theorem annotate_no_detections_identity_witness:
  "(0::nat) < length (heap toy_state) \<and> 2 \<le> length (shape (heap toy_state ! 0)) \<and>
   fst (annotate toy_lib 0 [] None toy_state) = Inr 1 \<and>
   heap (snd (annotate toy_lib 0 [] None toy_state)) ! 1 = toy_image"
proof -
  have h1: "0 < length (heap toy_state)"
    by (simp add: toy_state_def)
  have h2: "None \<noteq> (None :: int option) \<or> 2 \<le> length (shape (heap toy_state ! 0))"
    by (simp add: toy_state_def toy_image_def)
  show ?thesis
    using annotate_no_detections_identity [OF h1 h2, of toy_lib] h1 h2
    by (simp add: toy_state_def)
qed

lemma toy_rectangle_total: "\<forall>arr p q c t. \<exists>ws. rectangle toy_lib arr p q c t = Inr ws"
  by (simp add: toy_lib_def)

text \<open>
  C9. The array \<open>annotate\<close> returns has the shape, the element type and the buffer length
  of the input image, for every prediction list: drawing rectangles writes entries of the
  buffer and never resizes the array or changes its element type. And \<open>annotate\<close> does
  return, for every image and prediction list, when \<open>cv2.rectangle\<close> does not raise.
\<close>

theorem annotate_keeps_shape_and_dtype:
  "(\<forall>r. fst (annotate lib img ps th s) = Inr r \<longrightarrow>
      shape (heap (snd (annotate lib img ps th s)) ! r) = shape (heap s ! img) \<and>
      dtype (heap (snd (annotate lib img ps th s)) ! r) = dtype (heap s ! img) \<and>
      length (buf (heap (snd (annotate lib img ps th s)) ! r)) = length (buf (heap s ! img))) \<and>
   (img < length (heap s) \<and> (th \<noteq> None \<or> 2 \<le> length (shape (heap s ! img))) \<and>
    (\<forall>arr p q c t. \<exists>ws. rectangle lib arr p q c t = Inr ws) \<longrightarrow>
      (\<exists>r. fst (annotate lib img ps th s) = Inr r))"
proof (intro conjI allI impI)
  fix r assume r: "fst (annotate lib img ps th s) = Inr r"
  note facts = annotate_result_array [OF r]
  from facts show "shape (heap (snd (annotate lib img ps th s)) ! r) = shape (heap s ! img)" by simp
  from facts show "dtype (heap (snd (annotate lib img ps th s)) ! r) = dtype (heap s ! img)" by simp
  from facts show "length (buf (heap (snd (annotate lib img ps th s)) ! r)) = length (buf (heap s ! img))" by simp
next
  assume a: "img < length (heap s) \<and> (th \<noteq> None \<or> 2 \<le> length (shape (heap s ! img))) \<and>
    (\<forall>arr p q c t. \<exists>ws. rectangle lib arr p q c t = Inr ws)"
  let ?s1 = "s\<lparr>trace := trace s @ [NpCopy img], heap := heap s @ [heap s ! img]\<rparr>"
  have "length (heap s) < length (heap ?s1)" by simp
  with a have "fst (draw_boxes lib (length (heap s)) (thickness_used (heap s ! img) th) ps ?s1) = Inr ()"
    by (intro draw_boxes_returns) blast+
  then obtain s2 where
    "draw_boxes lib (length (heap s)) (thickness_used (heap s ! img) th) ps ?s1 = (Inr (), s2)"
    by (cases "draw_boxes lib (length (heap s)) (thickness_used (heap s ! img) th) ps ?s1") auto
  with a have "annotate lib img ps th s = (Inr (length (heap s)), s2)"
    by (simp add: annotate_good)
  then show "\<exists>r. fst (annotate lib img ps th s) = Inr r"
    by simp
qed

theorem annotate_keeps_shape_and_dtype_witness:
  "fst (annotate toy_lib 0 [dog, cat] None toy_state) = Inr 1 \<and>
   shape (heap (snd (annotate toy_lib 0 [dog, cat] None toy_state)) ! 1) = [1, 2, 3] \<and>
   dtype (heap (snd (annotate toy_lib 0 [dog, cat] None toy_state)) ! 1) = UInt8 \<and>
   length (buf (heap (snd (annotate toy_lib 0 [dog, cat] None toy_state)) ! 1)) = 6"
proof -
  have pre: "0 < length (heap toy_state) \<and>
      (None \<noteq> (None :: int option) \<or> 2 \<le> length (shape (heap toy_state ! 0))) \<and>
      (\<forall>arr p q c t. \<exists>ws. rectangle toy_lib arr p q c t = Inr ws)"
    using toy_rectangle_total by (simp add: toy_state_def toy_image_def)
  note inst = annotate_keeps_shape_and_dtype [of toy_lib 0 "[dog, cat]" None toy_state]
  from inst pre obtain r where r: "fst (annotate toy_lib 0 [dog, cat] None toy_state) = Inr r"
    by blast
  have "r = 1"
    using annotate_result_array(1) [OF r] by (simp add: toy_state_def)
  with r inst show ?thesis
    by (simp add: toy_state_def toy_image_def)
qed

text \<open>
  C10. With \<open>thickness\<close> omitted, every \<open>cv2.rectangle\<close> call of \<open>annotate\<close> is handed the
  thickness \<open>int(max(height, width) / 100)\<close> of the input image: the larger dimension
  divided by 100 in floating point, then truncated. When \<open>annotate\<close> returns there is one
  such call for each prediction. For an image whose larger dimension is below 100 that
  thickness is 0, and for every dimension below \<open>100 * 2\<^bsup>47\<^esup>\<close> it is the integer quotient
  by 100.
\<close>

theorem annotate_default_thickness:
  assumes "img < length (heap s)" and "2 \<le> length (shape (heap s ! img))"
  shows "set (thicknesses (drop (length (trace s)) (trace (snd (annotate lib img ps None s))))) \<subseteq>
           {Some (int_of_true_division
                    (uint (max (shape (heap s ! img) ! 0) (shape (heap s ! img) ! 1))) 100)} \<and>
         (\<forall>r. fst (annotate lib img ps None s) = Inr r \<longrightarrow>
            thicknesses (drop (length (trace s)) (trace (snd (annotate lib img ps None s)))) =
              replicate (length ps)
                (Some (int_of_true_division
                         (uint (max (shape (heap s ! img) ! 0) (shape (heap s ! img) ! 1))) 100))) \<and>
         (max (shape (heap s ! img) ! 0) (shape (heap s ! img) ! 1) < 100 \<longrightarrow>
            set (thicknesses (drop (length (trace s)) (trace (snd (annotate lib img ps None s))))) \<subseteq>
              {Some 0}) \<and>
         (uint (max (shape (heap s ! img) ! 0) (shape (heap s ! img) ! 1)) < 100 * 2 ^ 47 \<longrightarrow>
            int_of_true_division
              (uint (max (shape (heap s ! img) ! 0) (shape (heap s ! img) ! 1))) 100 =
            uint (max (shape (heap s ! img) ! 0) (shape (heap s ! img) ! 1)) div 100)"
proof -
  let ?m = "max (shape (heap s ! img) ! 0) (shape (heap s ! img) ! 1)"
  let ?t = "int_of_true_division (uint ?m) 100"
  let ?new = "drop (length (trace s)) (trace (snd (annotate lib img ps None s)))"
  have tu: "thickness_used (heap s ! img) None = ?t"
    by (simp add: thickness_used_def)
  from annotate_trace [of img s None ps lib] assms obtain k where k: "k \<le> length ps"
    "trace (snd (annotate lib img ps None s)) =
       trace s @ NpCopy img # map (rect_event (length (heap s)) (Some ?t)) (take k ps)"
    "fst (annotate lib img ps None s) = Inr (length (heap s)) \<longrightarrow> k = length ps"
    unfolding tu by blast
  have th: "thicknesses ?new = replicate (length (take k ps)) (Some ?t)"
    using thicknesses_rect_events [of "length (heap s)" "Some ?t" "take k ps"]
    by (simp add: k(2) thicknesses_def)
  have one: "set (thicknesses ?new) \<subseteq> {Some ?t}"
    unfolding th by auto
  have two: "\<forall>r. fst (annotate lib img ps None s) = Inr r \<longrightarrow>
      thicknesses ?new = replicate (length ps) (Some ?t)"
  proof (intro allI impI)
    fix r assume r: "fst (annotate lib img ps None s) = Inr r"
    then have "r = length (heap s)" by (rule annotate_Inr(3))
    with r k(3) have "k = length ps" by simp
    with th show "thicknesses ?new = replicate (length ps) (Some ?t)" by simp
  qed
  have three: "?m < 100 \<longrightarrow> set (thicknesses ?new) \<subseteq> {Some 0}"
  proof
    assume "?m < 100"
    then have "?t = 0" by (rule default_thickness_small)
    with one show "set (thicknesses ?new) \<subseteq> {Some 0}" by simp
  qed
  have four: "uint ?m < 100 * 2 ^ 47 \<longrightarrow> ?t = uint ?m div 100"
    by (simp add: int_of_true_division_floor)
  from one two three four show ?thesis by blast
qed

theorem annotate_default_thickness_witness:
  "(0::nat) < length (heap toy_state) \<and> 2 \<le> length (shape (heap toy_state ! 0)) \<and>
   max (shape (heap toy_state ! 0) ! 0) (shape (heap toy_state ! 0) ! 1) < 100 \<and>
   fst (annotate toy_lib 0 [dog, cat] None toy_state) = Inr 1 \<and>
   thicknesses (drop (length (trace toy_state)) (trace (snd (annotate toy_lib 0 [dog, cat] None toy_state)))) =
     [Some 0, Some 0]"
proof -
  have h1: "0 < length (heap toy_state)"
    by (simp add: toy_state_def)
  have h2: "2 \<le> length (shape (heap toy_state ! 0))"
    by (simp add: toy_state_def toy_image_def)
  have h3: "max (shape (heap toy_state ! 0) ! 0) (shape (heap toy_state ! 0) ! 1) < 100"
    by (simp add: toy_state_def toy_image_def)
  have ev: "fst (annotate toy_lib 0 [dog, cat] None toy_state) = Inr 1"
    by code_simp
  have "thicknesses (drop (length (trace toy_state)) (trace (snd (annotate toy_lib 0 [dog, cat] None toy_state)))) =
      replicate (length [dog, cat])
        (Some (int_of_true_division
                 (uint (max (shape (heap toy_state ! 0) ! 0) (shape (heap toy_state ! 0) ! 1))) 100))"
    using annotate_default_thickness [OF h1 h2, of toy_lib "[dog, cat]"] ev by blast
  also have "\<dots> = [Some 0, Some 0]"
    using default_thickness_small [OF h3] by simp
  finally show ?thesis
    using h1 h2 h3 ev by simp
qed

lemma draw_boxes_cong:
  "map topleft ps = map topleft qs \<Longrightarrow> map bottomright ps = map bottomright qs \<Longrightarrow>
   draw_boxes lib a t ps = draw_boxes lib a t qs"
proof (induction ps arbitrary: qs)
  case Nil
  then show ?case by simp
next
  case (Cons p ps)
  then obtain q qs' where qs: "qs = q # qs'"
    by (cases qs) auto
  with Cons.prems have hd: "topleft p = topleft q" "bottomright p = bottomright q"
    and tl: "map topleft ps = map topleft qs'" "map bottomright ps = map bottomright qs'"
    by simp_all
  from hd have "draw_box lib a t p = draw_box lib a t q"
    by (simp add: draw_box_def)
  with Cons.IH [OF tl] qs show ?case by simp
qed

text \<open>
  C4. \<open>annotate\<close> reads only the bounding box of each detection: two prediction lists
  that agree on the \<open>topleft\<close> and \<open>bottomright\<close> of each record, whatever their labels
  and confidence scores, give the same result, the same store and the same library calls.
\<close>

theorem annotate_ignores_label_and_confidence:
  assumes "map topleft ps = map topleft qs" and "map bottomright ps = map bottomright qs"
  shows "annotate lib img ps th s = annotate lib img qs th s"
  by (simp add: annotate_def draw_boxes_cong [OF assms])

theorem annotate_ignores_label_and_confidence_witness:
  "map topleft [dog] = map topleft [cat] \<and> map bottomright [dog] = map bottomright [cat] \<and>
   label dog \<noteq> label cat \<and> confidence dog \<noteq> confidence cat \<and>
   annotate toy_lib 0 [dog] None toy_state = annotate toy_lib 0 [cat] None toy_state"
proof -
  have h1: "map topleft [dog] = map topleft [cat]"
    by (simp add: dog_def cat_def)
  have h2: "map bottomright [dog] = map bottomright [cat]"
    by (simp add: dog_def cat_def)
  show ?thesis
    using annotate_ignores_label_and_confidence [OF h1 h2, of toy_lib 0 None toy_state] h1 h2
    by (simp add: dog_def cat_def)
qed

section \<open>Properties of \<open>loadImage\<close> and of the propagation of failures\<close>

lemma convert_after_alloc:
  "then_do (alloc_opt v) (\<lambda>a. cv2_cvtColor lib a code) s =
     (let n = length (heap s);
          s1 = s\<lparr>heap := heap s @ (case v of None \<Rightarrow> [] | Some arr \<Rightarrow> [arr]),
                 trace := trace s @ [CvtColor (map_option (\<lambda>_. n) v) code]\<rparr>
      in case cvtColor lib v code of
           Inl e \<Rightarrow> (Inl (External e), s1)
         | Inr out \<Rightarrow> (Inr (length (heap s1)), s1\<lparr>heap := heap s1 @ [out]\<rparr>))"
  by (cases v)
    (simp_all add: alloc_opt_def cv2_cvtColor_def deref_opt_def then_do_def ret_def alloc_def
      emit_def deref_def lift_lib_def Let_def split: sum.splits)

lemma loadImage_eq:
  "loadImage lib fs f s =
     (let s0 = s\<lparr>trace := trace s @ [Imread f IMREAD_COLOR]\<rparr> in
      case imread lib fs f IMREAD_COLOR of
        Inl e \<Rightarrow> (Inl (External e), s0)
      | Inr v \<Rightarrow> then_do (alloc_opt v) (\<lambda>a. cv2_cvtColor lib a COLOR_BGR2RGB) s0)"
  by (simp add: loadImage_def cv2_imread_def then_do_def emit_def lift_lib_def Let_def
      split: sum.splits prod.splits)

lemma result_array_convert:
  "result_array (then_do (alloc_opt v) (\<lambda>a. cv2_cvtColor lib a code) s) =
     lib_result (cvtColor lib v code)"
  by (simp add: convert_after_alloc Let_def result_array_def lib_result_def split: sum.splits)

lemma loadImage_result:
  "result_array (loadImage lib fs f s) =
     (case imread lib fs f IMREAD_COLOR of
        Inl e \<Rightarrow> Inl (External e)
      | Inr v \<Rightarrow> lib_result (cvtColor lib v COLOR_BGR2RGB))"
  by (cases "imread lib fs f IMREAD_COLOR")
    (simp_all add: loadImage_eq Let_def result_array_convert, simp add: result_array_def)

lemma loadImage_trace:
  "drop (length (trace s)) (trace (snd (loadImage lib fs f s))) =
     Imread f IMREAD_COLOR #
       (case imread lib fs f IMREAD_COLOR of
          Inl e \<Rightarrow> []
        | Inr v \<Rightarrow> [CvtColor (map_option (\<lambda>_. length (heap s)) v) COLOR_BGR2RGB])"
  by (simp add: loadImage_eq convert_after_alloc Let_def split: sum.splits)

lemma loadImage_fst:
  "fst (loadImage lib fs f s) =
     (case imread lib fs f IMREAD_COLOR of
        Inl e \<Rightarrow> Inl (External e)
      | Inr v \<Rightarrow>
          (case cvtColor lib v COLOR_BGR2RGB of
             Inl e \<Rightarrow> Inl (External e)
           | Inr out \<Rightarrow> Inr (length (heap s) + (case v of None \<Rightarrow> 0 | Some arr \<Rightarrow> 1))))"
  by (simp add: loadImage_eq convert_after_alloc Let_def split: sum.splits option.splits)

lemma loadImage_Inr_valid:
  assumes "fst (loadImage lib fs f s) = Inr r"
  shows "r < length (heap (snd (loadImage lib fs f s)))"
  using assms
  by (auto simp add: loadImage_eq convert_after_alloc Let_def split: sum.splits option.splits)

lemma loadImage_returns:
  assumes "result_array (loadImage lib fs f s) = Inr out"
  shows "\<exists>v. imread lib fs f IMREAD_COLOR = Inr v \<and> cvtColor lib v COLOR_BGR2RGB = Inr out"
  using assms by (auto simp add: loadImage_result lib_result_def split: sum.splits)

lemma toy_imread_contract:
  "\<forall>arr. imread toy_lib fs f IMREAD_COLOR = Inr (Some arr) \<longrightarrow>
     length (shape arr) = 3 \<and> shape arr ! 2 = 3 \<and> dtype arr = UInt8"
  by (auto simp add: toy_lib_def toy_decode_def)

lemma toy_cvtColor_contract:
  "\<forall>arr out. length (shape arr) = 3 \<and> shape arr ! 2 = 3 \<and>
       cvtColor toy_lib (Some arr) COLOR_BGR2RGB = Inr out \<longrightarrow>
     shape out = shape arr \<and> dtype out = dtype arr"
  by (auto simp add: toy_lib_def split: if_splits)

lemma toy_cvtColor_None: "\<forall>out. cvtColor toy_lib None COLOR_BGR2RGB \<noteq> Inr out"
  by (simp add: toy_lib_def)

text \<open>
  C3. \<open>loadImage(f)\<close> is \<open>cvtColor(imread(f, IMREAD_COLOR), COLOR_BGR2RGB)\<close>: what it
  returns (or raises) is what \<open>cvtColor\<close> returns (or raises) on the value \<open>imread\<close>
  decoded from the file, the decoder is called first with \<open>IMREAD_COLOR\<close> and the
  conversion second with \<open>COLOR_BGR2RGB\<close>. The array returned is a three-axis (height,
  width, channel) array of \<open>uint8\<close> values with three channels, given what OpenCV
  documents of the two calls: \<open>imread\<close> with \<open>IMREAD_COLOR\<close> yields \<open>None\<close> or a three-channel
  \<open>uint8\<close> array, the BGR-to-RGB conversion of a three-channel array keeps its shape and
  element type, and \<open>cvtColor\<close> rejects \<open>None\<close>.
\<close>

theorem loadImage_decodes_then_converts:
  "result_array (loadImage lib fs f s) =
     (case imread lib fs f IMREAD_COLOR of
        Inl e \<Rightarrow> Inl (External e)
      | Inr v \<Rightarrow> lib_result (cvtColor lib v COLOR_BGR2RGB)) \<and>
   drop (length (trace s)) (trace (snd (loadImage lib fs f s))) =
     Imread f IMREAD_COLOR #
       (case imread lib fs f IMREAD_COLOR of
          Inl e \<Rightarrow> []
        | Inr v \<Rightarrow> [CvtColor (map_option (\<lambda>_. length (heap s)) v) COLOR_BGR2RGB]) \<and>
   ((\<forall>arr. imread lib fs f IMREAD_COLOR = Inr (Some arr) \<longrightarrow>
        length (shape arr) = 3 \<and> shape arr ! 2 = 3 \<and> dtype arr = UInt8) \<and>
    (\<forall>arr out. length (shape arr) = 3 \<and> shape arr ! 2 = 3 \<and>
        cvtColor lib (Some arr) COLOR_BGR2RGB = Inr out \<longrightarrow>
        shape out = shape arr \<and> dtype out = dtype arr) \<and>
    (\<forall>out. cvtColor lib None COLOR_BGR2RGB \<noteq> Inr out) \<longrightarrow>
    (\<forall>out. result_array (loadImage lib fs f s) = Inr out \<longrightarrow>
        length (shape out) = 3 \<and> shape out ! 2 = 3 \<and> dtype out = UInt8 \<and>
        (\<exists>bgr. imread lib fs f IMREAD_COLOR = Inr (Some bgr) \<and> shape out = shape bgr)))"
proof (intro conjI impI allI)
  show "result_array (loadImage lib fs f s) =
     (case imread lib fs f IMREAD_COLOR of
        Inl e \<Rightarrow> Inl (External e)
      | Inr v \<Rightarrow> lib_result (cvtColor lib v COLOR_BGR2RGB))"
    by (rule loadImage_result)
  show "drop (length (trace s)) (trace (snd (loadImage lib fs f s))) =
     Imread f IMREAD_COLOR #
       (case imread lib fs f IMREAD_COLOR of
          Inl e \<Rightarrow> []
        | Inr v \<Rightarrow> [CvtColor (map_option (\<lambda>_. length (heap s)) v) COLOR_BGR2RGB])"
    by (rule loadImage_trace)
next
  fix out
  assume contract: "(\<forall>arr. imread lib fs f IMREAD_COLOR = Inr (Some arr) \<longrightarrow>
        length (shape arr) = 3 \<and> shape arr ! 2 = 3 \<and> dtype arr = UInt8) \<and>
    (\<forall>arr out. length (shape arr) = 3 \<and> shape arr ! 2 = 3 \<and>
        cvtColor lib (Some arr) COLOR_BGR2RGB = Inr out \<longrightarrow>
        shape out = shape arr \<and> dtype out = dtype arr) \<and>
    (\<forall>out. cvtColor lib None COLOR_BGR2RGB \<noteq> Inr out)"
    and res: "result_array (loadImage lib fs f s) = Inr out"
  from loadImage_returns [OF res] obtain v where
    v: "imread lib fs f IMREAD_COLOR = Inr v" "cvtColor lib v COLOR_BGR2RGB = Inr out"
    by blast
  note c1 = contract [THEN conjunct1, rule_format]
    and c2 = contract [THEN conjunct2, THEN conjunct1, rule_format]
    and c3 = contract [THEN conjunct2, THEN conjunct2, rule_format]
  have "v \<noteq> None"
  proof
    assume "v = None"
    with v(2) have "cvtColor lib None COLOR_BGR2RGB = Inr out" by simp
    with c3 [of out] show False by simp
  qed
  then obtain bgr where bgr: "v = Some bgr"
    by (cases v) simp_all
  from v(1) bgr have rd: "imread lib fs f IMREAD_COLOR = Inr (Some bgr)" by simp
  from c1 [OF rd] have src: "length (shape bgr) = 3" "shape bgr ! 2 = 3" "dtype bgr = UInt8"
    by simp_all
  from v(2) bgr have cv: "cvtColor lib (Some bgr) COLOR_BGR2RGB = Inr out" by simp
  from c2 [of bgr out] src cv have same: "shape out = shape bgr" "dtype out = dtype bgr"
    by simp_all
  from src same show "length (shape out) = 3" "shape out ! 2 = 3" "dtype out = UInt8"
    by simp_all
  from rd same show "\<exists>bgr. imread lib fs f IMREAD_COLOR = Inr (Some bgr) \<and> shape out = shape bgr"
    by blast
qed

theorem loadImage_decodes_then_converts_witness:
  "result_array (loadImage toy_lib toy_fs ''otto.jpg'' init_state) =
     Inr (toy_image\<lparr>buf := [3, 2, 1, 6, 5, 4]\<rparr>) \<and>
   length (shape (toy_image\<lparr>buf := [3, 2, 1, 6, 5, 4]\<rparr>)) = 3 \<and>
   dtype (toy_image\<lparr>buf := [3, 2, 1, 6, 5, 4]\<rparr>) = UInt8 \<and>
   drop (length (trace init_state)) (trace (snd (loadImage toy_lib toy_fs ''otto.jpg'' init_state))) =
     [Imread ''otto.jpg'' IMREAD_COLOR, CvtColor (Some 0) COLOR_BGR2RGB]"
proof -
  note inst = loadImage_decodes_then_converts [of toy_lib toy_fs "''otto.jpg''" init_state]
  have rd: "imread toy_lib toy_fs ''otto.jpg'' IMREAD_COLOR = Inr (Some toy_image)"
    by (simp add: toy_lib_def toy_fs_def toy_decode_def toy_image_def)
  have cv: "cvtColor toy_lib (Some toy_image) COLOR_BGR2RGB =
      Inr (toy_image\<lparr>buf := [3, 2, 1, 6, 5, 4]\<rparr>)"
    by (simp add: toy_lib_def toy_image_def)
  from inst [THEN conjunct1]
  have res: "result_array (loadImage toy_lib toy_fs ''otto.jpg'' init_state) =
      Inr (toy_image\<lparr>buf := [3, 2, 1, 6, 5, 4]\<rparr>)"
    by (simp add: rd cv lib_result_def)
  from inst [THEN conjunct2, THEN conjunct1]
  have tr: "drop (length (trace init_state))
      (trace (snd (loadImage toy_lib toy_fs ''otto.jpg'' init_state))) =
      [Imread ''otto.jpg'' IMREAD_COLOR, CvtColor (Some 0) COLOR_BGR2RGB]"
    by (simp add: rd init_state_def)
  note typed = inst [THEN conjunct2, THEN conjunct2, rule_format]
  have contracts: "(\<forall>arr. imread toy_lib toy_fs ''otto.jpg'' IMREAD_COLOR = Inr (Some arr) \<longrightarrow>
        length (shape arr) = 3 \<and> shape arr ! 2 = 3 \<and> dtype arr = UInt8) \<and>
    (\<forall>arr out. length (shape arr) = 3 \<and> shape arr ! 2 = 3 \<and>
        cvtColor toy_lib (Some arr) COLOR_BGR2RGB = Inr out \<longrightarrow>
        shape out = shape arr \<and> dtype out = dtype arr) \<and>
    (\<forall>out. cvtColor toy_lib None COLOR_BGR2RGB \<noteq> Inr out)"
    by (intro conjI toy_imread_contract toy_cvtColor_contract toy_cvtColor_None)
  from typed [OF contracts res]
  have "length (shape (toy_image\<lparr>buf := [3, 2, 1, 6, 5, 4]\<rparr>)) = 3 \<and>
      dtype (toy_image\<lparr>buf := [3, 2, 1, 6, 5, 4]\<rparr>) = UInt8"
    by simp
  with res tr show ?thesis by simp
qed

lemma loadImage_convert_error:
  assumes "imread lib fs f IMREAD_COLOR = Inr v" and "cvtColor lib v COLOR_BGR2RGB = Inl e"
  shows "loadImage lib fs f s =
     (Inl (External e),
      s\<lparr>trace := trace s @ [Imread f IMREAD_COLOR,
                             CvtColor (map_option (\<lambda>_. length (heap s)) v) COLOR_BGR2RGB],
         heap := heap s @ (case v of None \<Rightarrow> [] | Some arr \<Rightarrow> [arr])\<rparr>)"
  using assms by (cases v) (simp_all add: loadImage_eq convert_after_alloc Let_def)

lemma predict_load_error:
  assumes "fst (loadImage lib fs (''/data/images/'' @ imageFile) s) = Inl err"
  shows "predict lib fs imageFile s = (Inl err, snd (loadImage lib fs (''/data/images/'' @ imageFile) s))"
  using assms
  by (cases "loadImage lib fs (''/data/images/'' @ imageFile) s") (simp add: predict_def then_do_def)

lemma yolo_return_predict_eq:
  "yolo_return_predict lib a s =
     (let s0 = s\<lparr>trace := trace s @ [ReturnPredict a]\<rparr> in
      if a < length (heap s) then
        (case return_predict lib (heap s ! a) of
           Inl e \<Rightarrow> (Inl (External e), s0)
         | Inr ps \<Rightarrow> (Inr ps, s0))
      else (Inl DanglingRef, s0))"
  by (simp add: yolo_return_predict_def then_do_def emit_def deref_def lift_lib_def Let_def
      split: sum.splits)

lemma predict_inference_error:
  assumes "loadImage lib fs (''/data/images/'' @ imageFile) s = (Inr im, s1)"
    and "return_predict lib (heap s1 ! im) = Inl e"
  shows "predict lib fs imageFile s =
     (Inl (External e), s1\<lparr>trace := trace s1 @ [ReturnPredict im]\<rparr>)"
proof -
  from assms(1) have "fst (loadImage lib fs (''/data/images/'' @ imageFile) s) = Inr im"
    and "snd (loadImage lib fs (''/data/images/'' @ imageFile) s) = s1"
    by simp_all
  with loadImage_Inr_valid [of lib fs "''/data/images/'' @ imageFile" s im]
  have "im < length (heap s1)" by simp
  with assms show ?thesis
    by (simp add: predict_def then_do_def yolo_return_predict_eq Let_def)
qed

lemma predict_annotate_error:
  assumes "loadImage lib fs (''/data/images/'' @ imageFile) s = (Inr im, s1)"
    and "yolo_return_predict lib im s1 = (Inr ps, s2)"
    and "annotate lib im ps (Some 5) s2 = (Inl err, s3)"
  shows "predict lib fs imageFile s = (Inl err, s3)"
  using assms by (simp add: predict_def then_do_def)

lemma TFNet_error:
  "tfnet_build lib fs opts = Inl e \<Longrightarrow>
   TFNet lib fs opts s = (Inl (External e), s\<lparr>trace := trace s @ [TFNetBuild opts]\<rparr>)"
  by (simp add: TFNet_def then_do_def emit_def lift_lib_def)

text \<open>
  C5. A failure reaches the caller as the exception the library raised, and nothing is
  layered on top: the outcome is that exception together with the state in which the
  failing call was made once, with no further call.
  \<^item> If \<open>imread\<close> raises, \<open>loadImage\<close> raises the same exception after that one call.
  \<^item> If \<open>cvtColor\<close> raises on what \<open>imread\<close> returned, \<open>loadImage\<close> raises that exception
    after one \<open>imread\<close> and one \<open>cvtColor\<close> call.
  \<^item> \<open>loadImage\<close> raises nothing else, and it returns a value only when both calls
    returned one: it has no value of its own to fall back on.
  \<^item> For a missing file, which OpenCV's \<open>imread\<close> reports by returning \<open>None\<close>, on which
    \<open>cvtColor\<close> raises, \<open>loadImage\<close> raises that exception of \<open>cvtColor\<close>.
  \<^item> \<open>predict\<close> ends with the exception of \<open>loadImage\<close>, of \<open>return_predict\<close> or of
    \<open>annotate\<close>, in the state that call left; \<open>TFNet(options)\<close> ends with the exception
    of the model loader (missing weights).
\<close>

theorem library_failures_propagate:
  "(\<forall>e. imread lib fs f IMREAD_COLOR = Inl e \<longrightarrow>
      loadImage lib fs f s = (Inl (External e), s\<lparr>trace := trace s @ [Imread f IMREAD_COLOR]\<rparr>)) \<and>
   (\<forall>v e. imread lib fs f IMREAD_COLOR = Inr v \<and> cvtColor lib v COLOR_BGR2RGB = Inl e \<longrightarrow>
      loadImage lib fs f s =
        (Inl (External e),
         s\<lparr>trace := trace s @ [Imread f IMREAD_COLOR,
                                CvtColor (map_option (\<lambda>_. length (heap s)) v) COLOR_BGR2RGB],
            heap := heap s @ (case v of None \<Rightarrow> [] | Some arr \<Rightarrow> [arr])\<rparr>)) \<and>
   (\<forall>err. fst (loadImage lib fs f s) = Inl err \<longrightarrow>
      (\<exists>e. err = External e \<and>
         (imread lib fs f IMREAD_COLOR = Inl e \<or>
          (\<exists>v. imread lib fs f IMREAD_COLOR = Inr v \<and> cvtColor lib v COLOR_BGR2RGB = Inl e)))) \<and>
   (\<forall>r. fst (loadImage lib fs f s) = Inr r \<longrightarrow>
      (\<exists>v out. imread lib fs f IMREAD_COLOR = Inr v \<and> cvtColor lib v COLOR_BGR2RGB = Inr out)) \<and>
   (\<forall>e. files fs f = None \<and> imread lib fs f IMREAD_COLOR = Inr None \<and>
        cvtColor lib None COLOR_BGR2RGB = Inl e \<longrightarrow>
      loadImage lib fs f s =
        (Inl (External e),
         s\<lparr>trace := trace s @ [Imread f IMREAD_COLOR, CvtColor None COLOR_BGR2RGB]\<rparr>)) \<and>
   (\<forall>err. fst (loadImage lib fs (''/data/images/'' @ imageFile) s) = Inl err \<longrightarrow>
      predict lib fs imageFile s =
        (Inl err, snd (loadImage lib fs (''/data/images/'' @ imageFile) s))) \<and>
   (\<forall>im s1 e. loadImage lib fs (''/data/images/'' @ imageFile) s = (Inr im, s1) \<and>
        return_predict lib (heap s1 ! im) = Inl e \<longrightarrow>
      predict lib fs imageFile s =
        (Inl (External e), s1\<lparr>trace := trace s1 @ [ReturnPredict im]\<rparr>)) \<and>
   (\<forall>im s1 ps s2 err s3. loadImage lib fs (''/data/images/'' @ imageFile) s = (Inr im, s1) \<and>
        yolo_return_predict lib im s1 = (Inr ps, s2) \<and>
        annotate lib im ps (Some 5) s2 = (Inl err, s3) \<longrightarrow>
      predict lib fs imageFile s = (Inl err, s3)) \<and>
   (\<forall>e. tfnet_build lib fs opts = Inl e \<longrightarrow>
      TFNet lib fs opts s = (Inl (External e), s\<lparr>trace := trace s @ [TFNetBuild opts]\<rparr>))"
proof (intro conjI allI impI)
  fix e assume "imread lib fs f IMREAD_COLOR = Inl e"
  then show "loadImage lib fs f s = (Inl (External e), s\<lparr>trace := trace s @ [Imread f IMREAD_COLOR]\<rparr>)"
    by (simp add: loadImage_eq Let_def)
next
  fix v e assume "imread lib fs f IMREAD_COLOR = Inr v \<and> cvtColor lib v COLOR_BGR2RGB = Inl e"
  then show "loadImage lib fs f s =
        (Inl (External e),
         s\<lparr>trace := trace s @ [Imread f IMREAD_COLOR,
                                CvtColor (map_option (\<lambda>_. length (heap s)) v) COLOR_BGR2RGB],
            heap := heap s @ (case v of None \<Rightarrow> [] | Some arr \<Rightarrow> [arr])\<rparr>)"
    using loadImage_convert_error by blast
next
  fix err assume "fst (loadImage lib fs f s) = Inl err"
  then show "\<exists>e. err = External e \<and>
         (imread lib fs f IMREAD_COLOR = Inl e \<or>
          (\<exists>v. imread lib fs f IMREAD_COLOR = Inr v \<and> cvtColor lib v COLOR_BGR2RGB = Inl e))"
    by (auto simp add: loadImage_fst split: sum.splits)
next
  fix r assume "fst (loadImage lib fs f s) = Inr r"
  then show "\<exists>v out. imread lib fs f IMREAD_COLOR = Inr v \<and> cvtColor lib v COLOR_BGR2RGB = Inr out"
    by (auto simp add: loadImage_fst split: sum.splits)
next
  fix e
  assume "files fs f = None \<and> imread lib fs f IMREAD_COLOR = Inr None \<and>
        cvtColor lib None COLOR_BGR2RGB = Inl e"
  then have "imread lib fs f IMREAD_COLOR = Inr None" "cvtColor lib None COLOR_BGR2RGB = Inl e"
    by simp_all
  from loadImage_convert_error [OF this, of s]
  show "loadImage lib fs f s =
        (Inl (External e),
         s\<lparr>trace := trace s @ [Imread f IMREAD_COLOR, CvtColor None COLOR_BGR2RGB]\<rparr>)"
    by simp
next
  fix err assume "fst (loadImage lib fs (''/data/images/'' @ imageFile) s) = Inl err"
  then show "predict lib fs imageFile s =
        (Inl err, snd (loadImage lib fs (''/data/images/'' @ imageFile) s))"
    by (rule predict_load_error)
next
  fix im s1 e
  assume "loadImage lib fs (''/data/images/'' @ imageFile) s = (Inr im, s1) \<and>
        return_predict lib (heap s1 ! im) = Inl e"
  then show "predict lib fs imageFile s =
        (Inl (External e), s1\<lparr>trace := trace s1 @ [ReturnPredict im]\<rparr>)"
    using predict_inference_error by blast
next
  fix im s1 ps s2 err s3
  assume "loadImage lib fs (''/data/images/'' @ imageFile) s = (Inr im, s1) \<and>
        yolo_return_predict lib im s1 = (Inr ps, s2) \<and>
        annotate lib im ps (Some 5) s2 = (Inl err, s3)"
  then show "predict lib fs imageFile s = (Inl err, s3)"
    using predict_annotate_error by blast
next
  fix e assume "tfnet_build lib fs opts = Inl e"
  then show "TFNet lib fs opts s = (Inl (External e), s\<lparr>trace := trace s @ [TFNetBuild opts]\<rparr>)"
    by (rule TFNet_error)
qed

theorem library_failures_propagate_witness:
  "files toy_fs ''nope.jpg'' = None \<and>
   imread toy_lib toy_fs ''nope.jpg'' IMREAD_COLOR = Inr None \<and>
   cvtColor toy_lib None COLOR_BGR2RGB = Inl ''cvtColor: empty source'' \<and>
   loadImage toy_lib toy_fs ''nope.jpg'' init_state =
     (Inl (External ''cvtColor: empty source''),
      init_state\<lparr>trace := [Imread ''nope.jpg'' IMREAD_COLOR, CvtColor None COLOR_BGR2RGB]\<rparr>) \<and>
   fst (predict toy_lib toy_fs ''nope.jpg'' init_state) = Inl (External ''cvtColor: empty source'') \<and>
   TFNet toy_lib (toy_fs\<lparr>files := Map.empty\<rparr>) yolo_options init_state =
     (Inl (External ''TFNet: file not found''), init_state\<lparr>trace := [TFNetBuild yolo_options]\<rparr>)"
proof -
  note inst = library_failures_propagate [of toy_lib toy_fs "''nope.jpg''" init_state "''nope.jpg''"]
  note inst2 = library_failures_propagate [of toy_lib "toy_fs\<lparr>files := Map.empty\<rparr>" _ init_state _
      yolo_options]
  note missing = inst [THEN conjunct2, THEN conjunct2, THEN conjunct2, THEN conjunct2,
      THEN conjunct1, rule_format]
  note load_error = inst [THEN conjunct2, THEN conjunct2, THEN conjunct2, THEN conjunct2,
      THEN conjunct2, THEN conjunct1, rule_format]
  note build_error = inst2 [THEN conjunct2, THEN conjunct2, THEN conjunct2, THEN conjunct2,
      THEN conjunct2, THEN conjunct2, THEN conjunct2, THEN conjunct2, rule_format]
  have a: "files toy_fs ''nope.jpg'' = None"
    by (simp add: toy_fs_def)
  have b: "imread toy_lib toy_fs ''nope.jpg'' IMREAD_COLOR = Inr None"
    by (simp add: toy_lib_def toy_fs_def)
  have c: "cvtColor toy_lib None COLOR_BGR2RGB = Inl ''cvtColor: empty source''"
    by (simp add: toy_lib_def)
  from missing [OF conjI [OF a conjI [OF b c]]]
  have d: "loadImage toy_lib toy_fs ''nope.jpg'' init_state =
     (Inl (External ''cvtColor: empty source''),
      init_state\<lparr>trace := [Imread ''nope.jpg'' IMREAD_COLOR, CvtColor None COLOR_BGR2RGB]\<rparr>)"
    by (simp add: init_state_def)
  have e: "imread toy_lib toy_fs ''/data/images/nope.jpg'' IMREAD_COLOR = Inr None"
    by (simp add: toy_lib_def toy_fs_def)
  have ld: "fst (loadImage toy_lib toy_fs (''/data/images/'' @ ''nope.jpg'') init_state) =
      Inl (External ''cvtColor: empty source'')"
    by (simp add: loadImage_fst e c)
  from load_error [OF ld]
  have f: "fst (predict toy_lib toy_fs ''nope.jpg'' init_state) =
      Inl (External ''cvtColor: empty source'')"
    by simp
  have "tfnet_build toy_lib (toy_fs\<lparr>files := Map.empty\<rparr>) yolo_options = Inl ''TFNet: file not found''"
    by (simp add: toy_lib_def)
  from build_error [OF this]
  have g: "TFNet toy_lib (toy_fs\<lparr>files := Map.empty\<rparr>) yolo_options init_state =
     (Inl (External ''TFNet: file not found''), init_state\<lparr>trace := [TFNetBuild yolo_options]\<rparr>)"
    by (simp add: init_state_def)
  from a b c d f g show ?thesis by (intro conjI)
qed

section \<open>Delegation\<close>

lemma draw_boxes_delegate:
  "draw_boxes lib a t ps = delegate_boxes lib a (Some t) ps"
  by (induction ps) (simp_all add: draw_box_eq)

text \<open>
  C2, as amended. \<open>loadImage\<close> is the unconditional composition of \<open>cv2.imread\<close> and
  \<open>cv2.cvtColor\<close>. \<open>annotate\<close> delegates to \<open>np.copy\<close> and to one \<open>cv2.rectangle\<close> call per
  prediction, forwarding the thickness, when a thickness is given; when it is omitted
  \<open>annotate\<close> takes a branch of its own and draws with the thickness
  \<open>int(max(height, width) / 100)\<close> that it computes, in floating point, from the shape
  of the image.
\<close>

theorem helpers_delegate_but_default_thickness:
  "loadImage lib fs f = loadImage_delegation lib fs f \<and>
   annotate lib img ps (Some t) = annotate_delegation lib img ps (Some t) \<and>
   (img < length (heap s) \<and> 2 \<le> length (shape (heap s ! img)) \<longrightarrow>
      annotate lib img ps None s =
        annotate_delegation lib img ps
          (Some (int_of_true_division
                   (uint (max (shape (heap s ! img) ! 0) (shape (heap s ! img) ! 1))) 100)) s)"
proof (intro conjI impI)
  show "loadImage lib fs f = loadImage_delegation lib fs f"
    by (simp add: loadImage_def loadImage_delegation_def)
  show some: "annotate lib img ps (Some t) = annotate_delegation lib img ps (Some t)" for t
    by (simp add: annotate_def annotate_delegation_def draw_boxes_delegate then_do_ret)
  assume a: "img < length (heap s) \<and> 2 \<le> length (shape (heap s ! img))"
  let ?t = "int_of_true_division
      (uint (max (shape (heap s ! img) ! 0) (shape (heap s ! img) ! 1))) 100"
  from a have "annotate lib img ps None s = annotate lib img ps (Some ?t) s"
    by (simp add: annotate_good thickness_used_def)
  then show "annotate lib img ps None s = annotate_delegation lib img ps (Some ?t) s"
    by (simp add: some)
qed

theorem helpers_delegate_but_default_thickness_witness:
  "(0::nat) < length (heap toy_state) \<and> 2 \<le> length (shape (heap toy_state ! 0)) \<and>
   annotate toy_lib 0 [dog] None toy_state = annotate_delegation toy_lib 0 [dog] (Some 0) toy_state"
proof -
  have h: "0 < length (heap toy_state) \<and> 2 \<le> length (shape (heap toy_state ! 0))"
    by (simp add: toy_state_def toy_image_def)
  have "max (shape (heap toy_state ! 0) ! 0) (shape (heap toy_state ! 0) ! 1) < 100"
    by (simp add: toy_state_def toy_image_def)
  then have "int_of_true_division
      (uint (max (shape (heap toy_state ! 0) ! 0) (shape (heap toy_state ! 0) ! 1))) 100 = 0"
    by (rule default_thickness_small)
  with helpers_delegate_but_default_thickness [of toy_lib _ _ 0 "[dog]" _ toy_state,
      THEN conjunct2, THEN conjunct2] h
  show ?thesis by simp
qed

text \<open>
  The claim as stated fails: with the thickness omitted, \<open>annotate\<close> hands
  \<open>cv2.rectangle\<close> the thickness 0 it computed for a 1 by 2 image, where the pure
  delegation hands on the \<open>None\<close> it received.
\<close>

theorem annotate_not_pure_delegation:
  "annotate toy_lib 0 [dog] None toy_state \<noteq> annotate_delegation toy_lib 0 [dog] None toy_state \<and>
   thicknesses (trace (snd (annotate toy_lib 0 [dog] None toy_state))) = [Some 0] \<and>
   thicknesses (trace (snd (annotate_delegation toy_lib 0 [dog] None toy_state))) = [None]"
  by code_simp

section \<open>The files the notebook reads\<close>

lemma file_reads_append: "file_reads (xs @ ys) = file_reads xs @ file_reads ys"
  by (simp add: file_reads_def)

lemma emits_within_then_do:
  assumes m: "emits_within P m"
    and f: "\<And>v s s'. m s = (Inr v, s') \<Longrightarrow> emits_within P (f v)"
  shows "emits_within P (then_do m f)"
  unfolding emits_within_def
proof
  fix s
  obtain r s1 where ms: "m s = (r, s1)" by (cases "m s")
  from m ms obtain evs1 where e1: "trace s1 = trace s @ evs1" "set (file_reads evs1) \<subseteq> P"
    unfolding emits_within_def by (metis snd_conv)
  show "\<exists>evs. trace (snd (then_do m f s)) = trace s @ evs \<and> set (file_reads evs) \<subseteq> P"
  proof (cases r)
    case (Inl e)
    with ms e1 show ?thesis by (simp add: then_do_def)
  next
    case (Inr v)
    with ms f have "emits_within P (f v)" by blast
    then obtain evs2 where e2: "trace (snd (f v s1)) = trace s1 @ evs2" "set (file_reads evs2) \<subseteq> P"
      unfolding emits_within_def by blast
    from Inr ms have "then_do m f s = f v s1" by (simp add: then_do_def)
    with e1 e2 have "trace (snd (then_do m f s)) = trace s @ (evs1 @ evs2)"
      "set (file_reads (evs1 @ evs2)) \<subseteq> P"
      by (simp_all add: file_reads_append)
    then show ?thesis by blast
  qed
qed

lemma emits_within_silent:
  assumes "\<And>s. trace (snd (m s)) = trace s"
  shows "emits_within P m"
  unfolding emits_within_def
proof
  fix s
  have "trace (snd (m s)) = trace s @ [] \<and> set (file_reads []) \<subseteq> P"
    using assms by (simp add: file_reads_def)
  then show "\<exists>evs. trace (snd (m s)) = trace s @ evs \<and> set (file_reads evs) \<subseteq> P" by blast
qed

lemma emits_within_emit:
  assumes "set (event_paths ev) \<subseteq> P"
  shows "emits_within P (emit ev)"
  unfolding emits_within_def
proof
  fix s
  have "trace (snd (emit ev s)) = trace s @ [ev] \<and> set (file_reads [ev]) \<subseteq> P"
    using assms by (simp add: emit_def file_reads_def)
  then show "\<exists>evs. trace (snd (emit ev s)) = trace s @ evs \<and> set (file_reads evs) \<subseteq> P" by blast
qed

lemma emits_within_ret: "emits_within P (ret v)"
  by (rule emits_within_silent) (simp add: ret_def)

lemma emits_within_raise: "emits_within P (raise e)"
  by (rule emits_within_silent) (simp add: raise_def)

lemma emits_within_alloc: "emits_within P (alloc arr)"
  by (rule emits_within_silent) (simp add: alloc_def)

lemma emits_within_deref: "emits_within P (deref a)"
  by (rule emits_within_silent) (simp add: deref_def)

lemma emits_within_store: "emits_within P (store a arr)"
  by (rule emits_within_silent) (simp add: store_def)

lemma emits_within_lift_lib: "emits_within P (lift_lib r)"
  by (rule emits_within_silent) (simp add: lift_lib_def split: sum.splits)

lemma emits_within_alloc_opt: "emits_within P (alloc_opt r)"
  by (rule emits_within_silent)
    (simp add: alloc_opt_def ret_def then_do_def alloc_def split: option.splits)

lemma emits_within_deref_opt: "emits_within P (deref_opt v)"
  by (rule emits_within_silent)
    (simp add: deref_opt_def ret_def then_do_def deref_def split: option.splits)

lemmas emits_basic =
  emits_within_ret emits_within_raise emits_within_alloc emits_within_deref emits_within_store
  emits_within_lift_lib emits_within_alloc_opt emits_within_deref_opt

lemma emits_within_cv2_imread: "f \<in> P \<Longrightarrow> emits_within P (cv2_imread lib fs f flag)"
  unfolding cv2_imread_def
  by (intro emits_within_then_do emits_within_emit emits_basic) simp

lemma emits_within_cv2_cvtColor: "emits_within P (cv2_cvtColor lib v code)"
  unfolding cv2_cvtColor_def
  by (intro emits_within_then_do emits_within_emit emits_basic) simp

lemma emits_within_loadImage: "f \<in> P \<Longrightarrow> emits_within P (loadImage lib fs f)"
  unfolding loadImage_def
  by (intro emits_within_then_do emits_within_cv2_imread emits_within_cv2_cvtColor)

lemma emits_within_np_copy: "emits_within P (np_copy a)"
  unfolding np_copy_def
  by (intro emits_within_then_do emits_within_emit emits_basic) simp

lemma emits_within_cv2_rectangle: "emits_within P (cv2_rectangle lib a p q c t)"
  unfolding cv2_rectangle_def
  by (intro emits_within_then_do emits_within_emit emits_basic) simp

lemma emits_within_draw_boxes: "emits_within P (draw_boxes lib a t ps)"
  by (induction ps)
    (auto simp add: draw_box_eq intro!: emits_within_then_do emits_within_ret emits_within_cv2_rectangle)

lemma emits_within_default_thickness: "emits_within P (default_thickness arr)"
  by (simp add: default_thickness_def emits_within_raise emits_within_ret)

lemma emits_within_annotate: "emits_within P (annotate lib img ps th)"
  unfolding annotate_def
  by (cases th)
    (auto intro!: emits_within_then_do emits_within_np_copy emits_within_draw_boxes emits_basic
      emits_within_default_thickness)

lemma emits_within_yolo: "emits_within P (yolo_return_predict lib a)"
  unfolding yolo_return_predict_def
  by (intro emits_within_then_do emits_within_emit emits_basic) simp

lemma emits_within_imshow: "emits_within P (plt_imshow a)"
  unfolding plt_imshow_def by (rule emits_within_emit) simp

lemma emits_within_predict:
  "''/data/images/'' @ c \<in> P \<Longrightarrow> emits_within P (predict lib fs c)"
  unfolding predict_def
  by (intro emits_within_then_do emits_within_loadImage emits_within_yolo emits_within_annotate
      emits_within_imshow emits_within_ret)

lemma emits_within_caught: "emits_within P m \<Longrightarrow> emits_within P (caught m)"
  unfolding emits_within_def caught_def by (simp add: split_beta)

lemma emits_within_predict_value:
  "(\<And>c. v = Some c \<Longrightarrow> ''/data/images/'' @ c \<in> P) \<Longrightarrow> emits_within P (predict_value lib fs v)"
  unfolding predict_value_def
  by (cases v) (simp_all add: emits_within_raise emits_within_predict)

lemma emits_within_on_picks:
  assumes "\<And>c. c \<in> set picks \<Longrightarrow> c \<in> set offered \<Longrightarrow> emits_within P (f (Some c))"
  shows "emits_within P (on_picks f offered current picks)"
  using assms
proof (induction picks arbitrary: current)
  case Nil
  show ?case by (simp add: emits_within_ret)
next
  case (Cons c cs)
  have rest: "emits_within P (on_picks f offered cur cs)" for cur
    by (rule Cons.IH) (simp add: Cons.prems)
  show ?case
  proof (cases "c \<in> set offered \<and> current \<noteq> Some c")
    case True
    then have "emits_within P (caught (f (Some c)))"
      by (intro emits_within_caught Cons.prems) simp_all
    with True rest show ?thesis
      by (simp add: emits_within_then_do)
  next
    case False
    with rest [of current] show ?thesis by auto
  qed
qed

lemma emits_within_open_read: "p \<in> P \<Longrightarrow> emits_within P (open_read fs p)"
  unfolding open_read_def
  by (cases "files fs p") (auto intro!: emits_within_then_do emits_within_emit emits_basic)

lemma emits_within_np_asarray: "emits_within P (np_asarray b)"
  unfolding np_asarray_def
  by (intro emits_within_then_do emits_within_emit emits_basic) simp

lemma emits_within_cv2_imdecode: "emits_within P (cv2_imdecode lib a flag)"
  unfolding cv2_imdecode_def
  by (intro emits_within_then_do emits_within_emit emits_basic) simp

lemma emits_within_decode_bytes: "p \<in> P \<Longrightarrow> emits_within P (decode_bytes lib fs p)"
  unfolding decode_bytes_def
  by (intro emits_within_then_do emits_within_open_read emits_within_np_asarray
      emits_within_cv2_imdecode emits_within_cv2_cvtColor)

lemma emits_within_TFNet:
  "opt_model opts \<in> P \<Longrightarrow> opt_load opts \<in> P \<Longrightarrow> emits_within P (TFNet lib fs opts)"
  unfolding TFNet_def
  by (intro emits_within_then_do emits_within_emit emits_basic) simp

lemma emits_within_listdir: "emits_within P (listdir fs d)"
  unfolding listdir_def
  by (cases "dirs fs d") (auto intro!: emits_within_then_do emits_within_emit emits_basic)

lemma listdir_Inr: "listdir fs d s = (Inr names, s') \<Longrightarrow> dirs fs d = Some names"
  by (cases "dirs fs d") (simp_all add: listdir_def then_do_def emit_def raise_def ret_def)

lemma emits_within_interact:
  assumes "(\<lambda>c. ''/data/images/'' @ c) ` (set (take 1 offered) \<union> (set picks \<inter> set offered)) \<subseteq> P"
  shows "emits_within P (interact (predict_value lib fs) offered picks)"
proof -
  let ?initial = "case offered of [] \<Rightarrow> None | first # others \<Rightarrow> Some first"
  have first: "emits_within P (caught (predict_value lib fs ?initial))"
    using assms
    by (intro emits_within_caught emits_within_predict_value) (auto split: list.splits)
  have later: "emits_within P (on_picks (predict_value lib fs) offered cur picks)" for cur
    using assms by (intro emits_within_on_picks emits_within_predict_value) auto
  from first later show ?thesis
    by (simp add: interact_def Let_def emits_within_then_do)
qed

lemma emits_within_notebook:
  "emits_within
     (hard_coded_paths \<union>
      (\<lambda>c. ''/data/images/'' @ c) `
        (set (take 1 (offered_names fs)) \<union> (set picks \<inter> set (offered_names fs))))
     (notebook lib fs picks)"
proof -
  let ?P = "hard_coded_paths \<union>
      (\<lambda>c. ''/data/images/'' @ c) `
        (set (take 1 (offered_names fs)) \<union> (set picks \<inter> set (offered_names fs)))"
  have otto: "''otto.jpg'' \<in> ?P" and cfg: "opt_model yolo_options \<in> ?P"
    and weights: "opt_load yolo_options \<in> ?P"
    by (simp_all add: hard_coded_paths_def yolo_options_def)
  have last: "emits_within ?P (interact (predict_value lib fs) offered picks)"
    if "listdir fs ''/data/images/'' s = (Inr offered, s')" for offered s s'
  proof -
    from that have "offered = offered_names fs"
      by (simp add: offered_names_def listdir_Inr [OF that])
    then show ?thesis
      by (intro emits_within_interact) simp
  qed
  show ?thesis
    unfolding notebook_def
    by (intro emits_within_then_do emits_within_loadImage emits_within_imshow
        emits_within_decode_bytes emits_within_TFNet emits_within_yolo emits_within_annotate
        emits_within_listdir otto cfg weights) (rule last)
qed

lemma emits_within_init:
  assumes "emits_within P m"
  shows "set (file_reads (trace (snd (m init_state)))) \<subseteq> P"
proof -
  from assms obtain evs where "trace (snd (m init_state)) = trace init_state @ evs"
    "set (file_reads evs) \<subseteq> P"
    unfolding emits_within_def by blast
  then show ?thesis by (simp add: init_state_def)
qed

lemma predict_reads_its_path:
  "''/data/images/'' @ imageFile \<in> set (file_reads (trace (snd (predict lib fs imageFile s))))"
proof -
  let ?f = "''/data/images/'' @ imageFile"
  let ?rest = "\<lambda>im. then_do (yolo_return_predict lib im) (\<lambda>predictions.
     then_do (annotate lib im predictions (Some 5)) (\<lambda>annotated.
     then_do (plt_imshow annotated) (\<lambda>_. ret predictions)))"
  have rest: "emits_within UNIV (?rest im)" for im
    by (intro emits_within_then_do emits_within_yolo emits_within_annotate
        emits_within_imshow emits_within_ret)
  obtain r s1 where ld: "loadImage lib fs ?f s = (r, s1)" by (cases "loadImage lib fs ?f s")
  from loadImage_trace [of s lib fs ?f] ld
  have "Imread ?f IMREAD_COLOR \<in> set (drop (length (trace s)) (trace s1))"
    by simp
  then have "Imread ?f IMREAD_COLOR \<in> set (trace s1)"
    by (rule in_set_dropD)
  then have in1: "?f \<in> set (file_reads (trace s1))"
    by (force simp add: file_reads_def)
  show ?thesis
  proof (cases r)
    case (Inl e)
    with ld in1 show ?thesis by (simp add: predict_def then_do_def)
  next
    case (Inr im)
    with ld have eq: "predict lib fs imageFile s = ?rest im s1"
      by (simp add: predict_def then_do_def)
    from rest [of im] obtain evs where "trace (snd (?rest im s1)) = trace s1 @ evs"
      unfolding emits_within_def by blast
    with in1 eq show ?thesis by (simp add: file_reads_append)
  qed
qed

lemma caught_trace: "trace (snd (caught m s)) = trace (snd (m s))"
  by (simp add: caught_def split_beta)

lemma interact_reads_first:
  "''/data/images/'' @ first \<in>
     set (file_reads (trace (snd (interact (predict_value lib fs) (first # others) picks s))))"
proof -
  let ?call = "caught (predict_value lib fs (Some first))"
  let ?rest = "on_picks (predict_value lib fs) (first # others) (Some first) picks"
  obtain s1 where call: "?call s = (Inr (), s1)"
    by (simp add: caught_def split_beta)
  have "trace s1 = trace (snd (predict lib fs first s))"
    using caught_trace [of "predict_value lib fs (Some first)" s] call
    by (simp add: predict_value_def)
  with predict_reads_its_path [of first lib fs s]
  have in1: "''/data/images/'' @ first \<in> set (file_reads (trace s1))"
    by simp
  have "emits_within UNIV ?rest"
    by (intro emits_within_on_picks emits_within_predict_value) simp
  then obtain evs where "trace (snd (?rest s1)) = trace s1 @ evs"
    unfolding emits_within_def by blast
  with in1 have "''/data/images/'' @ first \<in> set (file_reads (trace (snd (?rest s1))))"
    by (simp add: file_reads_append)
  moreover from call
  have "interact (predict_value lib fs) (first # others) picks s = ?rest s1"
    by (simp add: interact_def Let_def then_do_def)
  ultimately show ?thesis by simp
qed

text \<open>
  C6, as amended. Every file the notebook reads is one of the hard-coded paths
  \<open>otto.jpg\<close>, \<open>cfg/yolo.cfg\<close> and \<open>/data/yolo.weights\<close>, or \<open>/data/images/\<close> followed by a
  name that the hard-coded directory \<open>/data/images/\<close> lists at run time: the first listed
  name, with which the widget calls \<open>predict\<close> when it is displayed, or a listed name the
  user picks. \<open>predict(imageFile)\<close> reads exactly the file \<open>"/data/images/" + imageFile\<close>, a
  path computed from its argument, and the \<open>interact\<close> cell reads the file of the first
  listed name whatever the user picks.
\<close>

theorem notebook_file_reads:
  "set (file_reads (trace (snd (notebook lib fs picks init_state)))) \<subseteq>
     hard_coded_paths \<union>
     (\<lambda>c. ''/data/images/'' @ c) `
       (set (take 1 (offered_names fs)) \<union> (set picks \<inter> set (offered_names fs))) \<and>
   set (file_reads (trace (snd (predict lib fs imageFile init_state)))) = {''/data/images/'' @ imageFile} \<and>
   ''/data/images/'' @ first \<in>
     set (file_reads (trace (snd (interact (predict_value lib fs) (first # others) picks s))))"
proof (intro conjI)
  show "set (file_reads (trace (snd (notebook lib fs picks init_state)))) \<subseteq>
     hard_coded_paths \<union>
     (\<lambda>c. ''/data/images/'' @ c) `
       (set (take 1 (offered_names fs)) \<union> (set picks \<inter> set (offered_names fs)))"
    by (rule emits_within_init) (rule emits_within_notebook)
  have "set (file_reads (trace (snd (predict lib fs imageFile init_state)))) \<subseteq> {''/data/images/'' @ imageFile}"
    by (rule emits_within_init) (rule emits_within_predict, simp)
  with predict_reads_its_path [of imageFile lib fs init_state]
  show "set (file_reads (trace (snd (predict lib fs imageFile init_state)))) = {''/data/images/'' @ imageFile}"
    by blast
  show "''/data/images/'' @ first \<in>
     set (file_reads (trace (snd (interact (predict_value lib fs) (first # others) picks s))))"
    by (rule interact_reads_first)
qed

text \<open>
  The claim as stated fails: on a file system whose directory \<open>/data/images/\<close> lists
  \<open>a.jpg\<close>, a run reads \<open>/data/images/a.jpg\<close>, which is none of the hard-coded paths, as
  soon as the widget is displayed and without any pick of the user.
\<close>

theorem notebook_reads_computed_path:
  "''/data/images/a.jpg'' \<in> set (file_reads (trace (snd (notebook toy_lib toy_fs [] init_state)))) \<and>
   ''/data/images/a.jpg'' \<notin> hard_coded_paths"
  by code_simp

end
